theory Spec2Isabelle
  imports Main "HOL-Library.Char_ord" "HOL-Library.List_Lexorder" "HOL-Library.Multiset"
begin

section \<open>Address normalisation (soln.py): a shallow embedding\<close>

text \<open>
  The program reads address entries from XML, TSV and plain-text files, turns each into
  a dictionary, concatenates the dictionaries of all files in argument order, sorts them
  by their \<open>zip\<close> entry and writes them out as JSON.

  Conventions of the model.
  \<^item> A Python \<open>str\<close> is a \<open>string\<close>; one \<open>char\<close> stands for one code point, so
    the model covers the code points below 256. Comparison of strings is the
    lexicographic order on code points, as in Python.
  \<^item> A Python value stored in a dictionary is a \<open>pyval\<close>: a string or \<open>None\<close>.
  \<^item> A dictionary is an association list in insertion order; assigning to a key that is
    already there replaces the value in place, a new key is appended.
  \<^item> An exception is the \<open>Inl\<close> of a sum; \<open>err_bind\<close> passes the first one on.
  \<^item> The library calls that read a file (\<open>ET.parse\<close>, \<open>csv.reader\<close>,
    \<open>file.read\<close>) are not modelled: their results are fields of \<open>input_file\<close>.
\<close>

subsection \<open>Exceptions\<close>

datatype error =
    AttributeError
  | KeyError
  | IndexError
  | ParseError
  | OSError
  | TypeError
  | SystemExit nat

definition err_bind :: "error + 'a \<Rightarrow> ('a \<Rightarrow> error + 'b) \<Rightarrow> error + 'b" where
  "err_bind m f = (case m of Inl e \<Rightarrow> Inl e | Inr v \<Rightarrow> f v)"

subsection \<open>String methods\<close>

text \<open>\<open>str.isspace\<close> on one code point below 256.\<close>

definition is_space :: "char \<Rightarrow> bool" where
  "is_space c = (c \<in> set [CHR 0x09, CHR 0x0A, CHR 0x0B, CHR 0x0C, CHR 0x0D,
                           CHR 0x1C, CHR 0x1D, CHR 0x1E, CHR 0x1F, CHR 0x20,
                           CHR 0x85, CHR 0xA0])"

definition lstrip :: "string \<Rightarrow> string" where
  "lstrip s = dropWhile is_space s"

definition rstrip :: "string \<Rightarrow> string" where
  "rstrip s = rev (dropWhile is_space (rev s))"

text \<open>\<open>s.strip()\<close>\<close>

definition strip :: "string \<Rightarrow> string" where
  "strip s = rstrip (lstrip s)"

text \<open>\<open>s.startswith(p)\<close> and \<open>s.endswith(p)\<close>\<close>

definition startswith :: "string \<Rightarrow> string \<Rightarrow> bool" where
  "startswith s p = (take (length p) s = p)"

definition endswith :: "string \<Rightarrow> string \<Rightarrow> bool" where
  "endswith s p = startswith (rev s) (rev p)"

text \<open>\<open>sub in s\<close>\<close>

fun contains :: "string \<Rightarrow> string \<Rightarrow> bool" where
  "contains [] sub = (sub = [])"
| "contains (c # cs) sub = (startswith (c # cs) sub \<or> contains cs sub)"

text \<open>
  \<open>s.split(sep)\<close> for a non-empty separator: the occurrences of \<open>sep\<close> are found from
  the left and do not overlap; \<open>acc\<close> holds the current piece in reverse. Python raises
  \<open>ValueError\<close> for an empty separator; every separator of the program is a non-empty
  literal, and on an empty one the scan below never splits.
\<close>

function split_scan :: "string \<Rightarrow> string \<Rightarrow> string \<Rightarrow> string list" where
  "split_scan sep acc [] = [rev acc]"
| "split_scan sep acc (c # cs) =
     (if sep \<noteq> [] \<and> startswith (c # cs) sep
      then rev acc # split_scan sep [] (drop (length sep) (c # cs))
      else split_scan sep (c # acc) cs)"
  by pat_completeness auto
termination
  by (relation "measure (\<lambda>(sep, acc, s). length s)") (auto simp: neq_Nil_conv)

definition py_split :: "string \<Rightarrow> string \<Rightarrow> string list" where
  "py_split s sep = split_scan sep [] s"

text \<open>\<open>s.replace(old, new)\<close> for a non-empty \<open>old\<close>\<close>

function py_replace :: "string \<Rightarrow> string \<Rightarrow> string \<Rightarrow> string" where
  "py_replace [] old new = []"
| "py_replace (c # cs) old new =
     (if old \<noteq> [] \<and> startswith (c # cs) old
      then new @ py_replace (drop (length old) (c # cs)) old new
      else c # py_replace cs old new)"
  by pat_completeness auto
termination
  by (relation "measure (\<lambda>(s, old, new). length s)") (auto simp: neq_Nil_conv)

text \<open>\<open>sep.join(xs)\<close>\<close>

fun py_join :: "string \<Rightarrow> string list \<Rightarrow> string" where
  "py_join sep [] = []"
| "py_join sep [x] = x"
| "py_join sep (x # y # ys) = x @ sep @ py_join sep (y # ys)"

text \<open>\<open>xs[i]\<close> for \<open>i \<ge> 0\<close>\<close>

definition index :: "'a list \<Rightarrow> nat \<Rightarrow> error + 'a" where
  "index xs i = (if i < length xs then Inr (xs ! i) else Inl IndexError)"

subsection \<open>Values and dictionaries\<close>

datatype pyval = PStr string | PNone

type_synonym pydict = "(string \<times> pyval) list"

text \<open>\<open>d[k] = v\<close>\<close>

fun setitem :: "pydict \<Rightarrow> string \<Rightarrow> pyval \<Rightarrow> pydict" where
  "setitem [] k v = [(k, v)]"
| "setitem ((k', v') # d) k v = (if k' = k then (k, v) # d else (k', v') # setitem d k v)"

text \<open>\<open>d[k]\<close>\<close>

definition getitem :: "pydict \<Rightarrow> string \<Rightarrow> error + pyval" where
  "getitem d k = (case map_of d k of None \<Rightarrow> Inl KeyError | Some v \<Rightarrow> Inr v)"

text \<open>\<open>d.get(k, default)\<close>; \<open>d.get(k)\<close> is \<open>dict_get d k PNone\<close>\<close>

definition dict_get :: "pydict \<Rightarrow> string \<Rightarrow> pyval \<Rightarrow> pyval" where
  "dict_get d k dflt = (case map_of d k of None \<Rightarrow> dflt | Some v \<Rightarrow> v)"

text \<open>\<open>k in d\<close>\<close>

definition has_key :: "pydict \<Rightarrow> string \<Rightarrow> bool" where
  "has_key d k = (map_of d k \<noteq> None)"

text \<open>\<open>v.strip()\<close> on a value: \<open>None\<close> has no such attribute.\<close>

fun val_strip :: "pyval \<Rightarrow> error + string" where
  "val_strip (PStr s) = Inr (strip s)"
| "val_strip PNone = Inl AttributeError"

text \<open>Truth value of a string or \<open>None\<close>\<close>

fun truthy :: "pyval \<Rightarrow> bool" where
  "truthy (PStr s) = (s \<noteq> [])"
| "truthy PNone = False"

subsection \<open>The XML parser\<close>

text \<open>
  An element of the tree \<open>ET.parse\<close> returns: its tag, its text (the attribute
  \<open>text\<close>, here \<open>etext\<close>, \<open>None\<close> for an element with no character data before its
  first child) and its children.
\<close>

datatype element = Element (tag: string) (etext: "string option") (children: "element list")

text \<open>\<open>e.find(t)\<close>: the first child with tag \<open>t\<close>\<close>

definition find_child :: "element \<Rightarrow> string \<Rightarrow> element option" where
  "find_child e t = find (\<lambda>c. tag c = t) (children e)"

text \<open>All proper descendants in document order; \<open>root.findall('.//ENT')\<close> filters them.\<close>

fun descendants :: "element \<Rightarrow> element list" where
  "descendants (Element t x cs) = concat (map (\<lambda>c. c # descendants c) cs)"

definition findall_ENT :: "element \<Rightarrow> element list" where
  "findall_ENT root = filter (\<lambda>e. tag e = ''ENT'') (descendants root)"

text \<open>\<open>ent.find(t).text\<close>: the child may be missing.\<close>

definition child_text :: "element \<Rightarrow> string \<Rightarrow> error + string option" where
  "child_text ent t = (case find_child ent t of None \<Rightarrow> Inl AttributeError | Some c \<Rightarrow> Inr (etext c))"

text \<open>\<open>ent.find(t).text.strip() if ent.find(t).text else ""\<close> (lines 15 and 16)\<close>

definition text_or_empty :: "element \<Rightarrow> string \<Rightarrow> error + string" where
  "text_or_empty ent t =
     err_bind (child_text ent t) (\<lambda>x.
       case x of None \<Rightarrow> Inr [] | Some s \<Rightarrow> if s = [] then Inr [] else Inr (strip s))"

text \<open>\<open>ent.find(t).text.strip()\<close> (lines 27, 30, 31, 32)\<close>

definition required_text :: "element \<Rightarrow> string \<Rightarrow> error + string" where
  "required_text ent t =
     err_bind (child_text ent t) (\<lambda>x.
       case x of None \<Rightarrow> Inl AttributeError | Some s \<Rightarrow> Inr (strip s))"

text \<open>
  The comprehension of lines 25 and 26 over the tags \<open>STREET_2\<close> and \<open>STREET_3\<close>: a tag
  with no child is skipped, a child with no text raises, a child whose stripped text is
  empty is skipped.
\<close>

fun extra_streets :: "element \<Rightarrow> string list \<Rightarrow> error + string list" where
  "extra_streets ent [] = Inr []"
| "extra_streets ent (t # ts) =
     (case find_child ent t of
        None \<Rightarrow> extra_streets ent ts
      | Some c \<Rightarrow>
          (case etext c of
             None \<Rightarrow> Inl AttributeError
           | Some s \<Rightarrow>
               if strip s \<noteq> []
               then err_bind (extra_streets ent ts) (\<lambda>rest. Inr (strip s # rest))
               else extra_streets ent ts))"

text \<open>Lines 15 to 22: the identity part of the record.\<close>

definition xml_identity :: "string \<Rightarrow> string \<Rightarrow> pydict" where
  "xml_identity name company =
     (if name \<noteq> [] then setitem [] ''name'' (PStr (strip name))
      else if company \<noteq> [] then setitem [] ''organization'' (PStr company)
      else [])"

text \<open>\<open>ent.find('COUNTRY').text.strip() if ent.find('COUNTRY').text else None\<close> (line 36)\<close>

definition country_of :: "element \<Rightarrow> error + pyval" where
  "country_of ent =
     err_bind (child_text ent ''COUNTRY'') (\<lambda>x.
       case x of None \<Rightarrow> Inr PNone | Some s \<Rightarrow> if s = [] then Inr PNone else Inr (PStr (strip s)))"

text \<open>The body of the loop of \<open>parse_xml\<close> (lines 14 to 40) for one \<open>ENT\<close> element.\<close>

definition parse_ent :: "element \<Rightarrow> error + pydict" where
  "parse_ent ent =
     err_bind (text_or_empty ent ''NAME'') (\<lambda>name.
     err_bind (text_or_empty ent ''COMPANY'') (\<lambda>company.
     err_bind (extra_streets ent [''STREET_2'', ''STREET_3'']) (\<lambda>streets.
     err_bind (required_text ent ''STREET'') (\<lambda>street.
     err_bind (required_text ent ''CITY'') (\<lambda>city.
     err_bind (required_text ent ''STATE'') (\<lambda>state.
     err_bind (required_text ent ''POSTAL_CODE'') (\<lambda>postal_code.
     err_bind (index (py_split postal_code '' -'') 0) (\<lambda>zip.
     err_bind (country_of ent) (\<lambda>country.
       let address = xml_identity name company;
           address = setitem address ''street'' (PStr (py_join '' '' (street # streets)));
           address = setitem address ''city'' (PStr city);
           address = setitem address ''state'' (PStr state);
           address = setitem address ''zip'' (PStr zip);
           address = (if truthy country then setitem address ''country'' country else address)
       in Inr address)))))))))"

text \<open>The loop of a parser: the first exception ends it.\<close>

fun map_err :: "('a \<Rightarrow> error + 'b) \<Rightarrow> 'a list \<Rightarrow> error + 'b list" where
  "map_err f [] = Inr []"
| "map_err f (x # xs) =
     err_bind (f x) (\<lambda>y. err_bind (map_err f xs) (\<lambda>ys. Inr (y # ys)))"

definition parse_xml_root :: "element \<Rightarrow> error + pydict list" where
  "parse_xml_root root = map_err parse_ent (findall_ENT root)"

subsection \<open>The TSV parser\<close>

text \<open>
  \<open>csv.DictReader\<close> over the rows that \<open>csv.reader\<close> yields: the first row gives the
  field names, empty rows after it are skipped, a row shorter than the header has
  \<open>None\<close> for the missing fields. The surplus fields of a longer row are stored under the
  key \<open>None\<close>, which no lookup by a string reaches, and are left out.
\<close>

definition make_row :: "string list \<Rightarrow> string list \<Rightarrow> pydict" where
  "make_row fieldnames row =
     (let d = fold (\<lambda>(k, v) d. setitem d k (PStr v)) (zip fieldnames row) []
      in fold (\<lambda>k d. setitem d k PNone) (drop (length row) fieldnames) d)"

definition dict_reader :: "string list list \<Rightarrow> pydict list" where
  "dict_reader rows =
     (case rows of
        [] \<Rightarrow> []
      | fieldnames # rest \<Rightarrow> map (make_row fieldnames) (filter (\<lambda>r. r \<noteq> []) rest))"

text \<open>Lines 50 to 55\<close>

definition tsv_identity :: "pydict \<Rightarrow> error + pydict" where
  "tsv_identity row =
     err_bind (getitem row ''organization'') (\<lambda>org.
       if org \<noteq> PStr ''N/A'' then Inr (setitem [] ''organization'' org)
       else
         err_bind (getitem row ''first'') (\<lambda>first.
         err_bind (getitem row ''middle'') (\<lambda>middle.
         err_bind (getitem row ''last'') (\<lambda>last.
         err_bind (map_err val_strip [first, middle, last]) (\<lambda>name_parts.
           Inr (setitem [] ''name''
                  (PStr (py_join '' '' (filter (\<lambda>x. x \<noteq> []) name_parts)))))))))"

text \<open>Line 58\<close>

definition tsv_county :: "pydict \<Rightarrow> pydict \<Rightarrow> error + pydict" where
  "tsv_county row address =
     (if dict_get row ''county'' PNone \<noteq> PStr []
      then err_bind (getitem row ''county'') (\<lambda>c.
           err_bind (val_strip c) (\<lambda>county. Inr (setitem address ''county'' (PStr county))))
      else Inr address)"

text \<open>Lines 61 and 62: the conditional expression spans the whole right-hand side.\<close>

definition tsv_zip :: "pydict \<Rightarrow> error + string" where
  "tsv_zip row =
     err_bind (getitem row ''zip4'') (\<lambda>c.
       if truthy c
       then err_bind (getitem row ''zip'') (\<lambda>z.
            err_bind (val_strip z) (\<lambda>zip.
            err_bind (getitem row ''zip4'') (\<lambda>z4.
            err_bind (val_strip z4) (\<lambda>zip4. Inr (zip @ ''-'' @ zip4)))))
       else err_bind (getitem row ''zip'') val_strip)"

text \<open>The body of the loop of \<open>parse_tsv\<close> (lines 49 to 64) for one row.\<close>

definition parse_row :: "pydict \<Rightarrow> error + pydict" where
  "parse_row row =
     err_bind (tsv_identity row) (\<lambda>address.
     err_bind (getitem row ''address'') (\<lambda>a.
     err_bind (val_strip a) (\<lambda>street.
     err_bind (tsv_county row (setitem address ''street'' (PStr street))) (\<lambda>address.
     err_bind (getitem row ''city'') (\<lambda>c.
     err_bind (val_strip c) (\<lambda>city.
     err_bind (getitem row ''state'') (\<lambda>s.
     err_bind (val_strip s) (\<lambda>state.
     err_bind (tsv_zip row) (\<lambda>zip.
       Inr (setitem (setitem (setitem address ''city'' (PStr city))
                      ''state'' (PStr state)) ''zip'' (PStr zip)))))))))))"

definition parse_tsv_rows :: "string list list \<Rightarrow> error + pydict list" where
  "parse_tsv_rows rows = map_err parse_row (dict_reader rows)"

subsection \<open>The plain-text parser\<close>

text \<open>Lines 75 to 79\<close>

definition txt_name :: "string \<Rightarrow> string" where
  "txt_name name_line =
     (if contains name_line '','' then py_replace name_line '','' [] else strip name_line)"

text \<open>Lines 87 to 90, from the list \<open>city_state_zip\<close>\<close>

definition txt_city_state_zip :: "string list \<Rightarrow> pydict \<Rightarrow> error + pydict" where
  "txt_city_state_zip city_state_zip address =
     err_bind (index city_state_zip 0) (\<lambda>p0.
     err_bind (index city_state_zip 1) (\<lambda>p1.
     let state_zip = py_split (strip p1) '' '' in
     err_bind (index state_zip 0) (\<lambda>s0.
     err_bind (index state_zip 1) (\<lambda>s1.
       Inr (setitem (setitem (setitem address ''city'' (PStr (strip p0)))
                      ''state'' (PStr (strip s0))) ''zip'' (PStr (strip s1)))))))"

text \<open>The body of the loop of \<open>parse_txt\<close> (lines 73 to 92) for one block.\<close>

definition parse_block :: "string \<Rightarrow> error + pydict" where
  "parse_block block =
     (let lines = py_split block ''\<newline>'' in
      err_bind (index lines 0) (\<lambda>name_line.
      err_bind (index lines 1) (\<lambda>l1.
      let address = setitem (setitem [] ''name'' (PStr (txt_name name_line)))
                      ''street'' (PStr (strip l1)) in
      err_bind (index lines 2) (\<lambda>l2.
        if contains l2 ''COUNTY''
        then err_bind (index lines 3) (\<lambda>l3.
               txt_city_state_zip (py_split l3 '','')
                 (setitem address ''county'' (PStr (strip (py_replace l2 ''COUNTY'' [])))))
        else txt_city_state_zip (py_split l2 '','') address))))"

definition parse_txt_content :: "string \<Rightarrow> error + pydict list" where
  "parse_txt_content s = map_err parse_block (py_split (strip s) ''\<newline>\<newline>'')"

subsection \<open>Files and \<open>main\<close>\<close>

text \<open>
  An input file: its path and what each library call returns for it, \<open>None\<close> when the
  call raises (a missing file, a document that is not well-formed).
\<close>

record input_file =
  path :: string
  et_parse :: "element option"
  csv_rows :: "string list list option"
  read_text :: "string option"

definition parse_xml :: "input_file \<Rightarrow> error + pydict list" where
  "parse_xml f = (case et_parse f of None \<Rightarrow> Inl ParseError | Some root \<Rightarrow> parse_xml_root root)"

definition parse_tsv :: "input_file \<Rightarrow> error + pydict list" where
  "parse_tsv f = (case csv_rows f of None \<Rightarrow> Inl OSError | Some rows \<Rightarrow> parse_tsv_rows rows)"

definition parse_txt :: "input_file \<Rightarrow> error + pydict list" where
  "parse_txt f = (case read_text f of None \<Rightarrow> Inl OSError | Some s \<Rightarrow> parse_txt_content s)"

text \<open>
  Lines 109 to 118: the records one file contributes; a path with none of the three
  suffixes is skipped with a message.
\<close>

definition dispatch :: "input_file \<Rightarrow> error + pydict list" where
  "dispatch f =
     (if endswith (path f) ''.xml'' then parse_xml f
      else if endswith (path f) ''.tsv'' then parse_tsv f
      else if endswith (path f) ''.txt'' then parse_txt f
      else Inr [])"

text \<open>
  The loop of lines 107 to 121; \<open>acc\<close> is the list \<open>file_paths\<close>. Any exception of a
  parser ends the run with exit status 1.
\<close>

fun collect :: "pydict list \<Rightarrow> input_file list \<Rightarrow> error + pydict list" where
  "collect acc [] = Inr acc"
| "collect acc (f # fs) =
     (case dispatch f of
        Inl e \<Rightarrow> Inl (SystemExit 1)
      | Inr rs \<Rightarrow> collect (acc @ rs) fs)"

text \<open>
  Line 124. The key of a record is \<open>x.get('zip', '99999')\<close>. \<open>list.sort\<close> is stable and
  compares the keys as strings; it raises \<open>TypeError\<close> when it has to compare a key
  that is \<open>None\<close>, which happens as soon as there are two records. \<open>zip_key\<close> is the key
  as a string; its value for \<open>None\<close> is never compared.
\<close>

definition sort_key_of :: "pydict \<Rightarrow> pyval" where
  "sort_key_of x = dict_get x ''zip'' (PStr ''99999'')"

definition zip_key :: "pydict \<Rightarrow> string" where
  "zip_key x = (case sort_key_of x of PStr s \<Rightarrow> s | PNone \<Rightarrow> [])"

definition sort_records :: "pydict list \<Rightarrow> error + pydict list" where
  "sort_records recs =
     (if 2 \<le> length recs \<and> list_ex (\<lambda>x. sort_key_of x = PNone) recs
      then Inl TypeError
      else Inr (sort_key zip_key recs))"

text \<open>
  \<open>main\<close>: the result is the list written to \<open>output.json\<close>. With no file argument
  \<open>argparse\<close> ends the run with exit status 2.
\<close>

definition main :: "input_file list \<Rightarrow> error + pydict list" where
  "main files =
     (if files = [] then Inl (SystemExit 2)
      else err_bind (collect [] files) sort_records)"

subsection \<open>Notions of the specification\<close>

text \<open>
  The text of an element is blank when there is none or when nothing is left of it
  after trimming.
\<close>

definition blank :: "string option \<Rightarrow> bool" where
  "blank x = (case x of None \<Rightarrow> True | Some s \<Rightarrow> strip s = [])"

text \<open>
  An entity identifies a person or a company, and is valid input in that respect, when
  its NAME child or its COMPANY child has a text that is not blank.
\<close>

definition identified :: "element \<Rightarrow> bool" where
  "identified ent =
     ((case find_child ent ''NAME'' of None \<Rightarrow> False | Some n \<Rightarrow> \<not> blank (etext n))
      \<or> (case find_child ent ''COMPANY'' of None \<Rightarrow> False | Some c \<Rightarrow> \<not> blank (etext c)))"

text \<open>
  The whitespace-delimited tokens of a string, as the specification words the split of
  the state and zip part: a run of whitespace separates two tokens and no token is
  empty. \<open>acc\<close> holds the current token in reverse. The program does not call this
  function; it is what \<open>py_split\<close> with a single space is compared with.
\<close>

fun token_scan :: "string \<Rightarrow> string \<Rightarrow> string list" where
  "token_scan acc [] = (if acc = [] then [] else [rev acc])"
| "token_scan acc (c # cs) =
     (if is_space c
      then (if acc = [] then token_scan [] cs else rev acc # token_scan [] cs)
      else token_scan (c # acc) cs)"

definition whitespace_tokens :: "string \<Rightarrow> string list" where
  "whitespace_tokens s = token_scan [] s"

text \<open>
  The records a file contributes to the concatenation: those its parser returns, none
  for a path that is skipped.
\<close>

definition contribution :: "input_file \<Rightarrow> pydict list" where
  "contribution f = (case dispatch f of Inl e \<Rightarrow> [] | Inr rs \<Rightarrow> rs)"

section \<open>Basic facts\<close>

lemma err_bind_Inl [simp]: "err_bind (Inl e) f = Inl e"
  by (simp add: err_bind_def)

lemma err_bind_Inr [simp]: "err_bind (Inr v) f = f v"
  by (simp add: err_bind_def)

lemma err_bind_eq_Inr: "(err_bind m f = Inr r) = (\<exists>v. m = Inr v \<and> f v = Inr r)"
  by (cases m) auto

lemma err_bind_eq_Inl:
  "(err_bind m f = Inl e) = (m = Inl e \<or> (\<exists>v. m = Inr v \<and> f v = Inl e))"
  by (cases m) auto

lemma map_of_setitem: "map_of (setitem d k v) = (map_of d)(k \<mapsto> v)"
  by (induction d) (auto simp: fun_eq_iff)

lemma has_key_setitem [simp]: "has_key (setitem d k v) k' = (k' = k \<or> has_key d k')"
  by (simp add: has_key_def map_of_setitem)

lemma has_key_Nil [simp]: "\<not> has_key [] k"
  by (simp add: has_key_def)

lemma split_scan_not_Nil: "split_scan sep acc s \<noteq> []"
  by (induction sep acc s rule: split_scan.induct) auto

lemma index_py_split_0: "index (py_split s sep) 0 = Inr (hd (py_split s sep))"
  using split_scan_not_Nil [of sep "[]" s]
  by (cases "split_scan sep [] s") (auto simp: index_def py_split_def)

section \<open>The XML parser\<close>

lemma child_text_missing: "find_child ent t = None \<Longrightarrow> child_text ent t = Inl AttributeError"
  by (simp add: child_text_def)

text \<open>Every exception inside the loop body of \<open>parse_xml\<close> is an \<open>AttributeError\<close>.\<close>

lemma text_or_empty_cases:
  "text_or_empty ent t = Inl AttributeError \<or> (\<exists>s. text_or_empty ent t = Inr s)"
  by (auto simp: text_or_empty_def child_text_def split: option.splits)

lemma required_text_cases:
  "required_text ent t = Inl AttributeError \<or> (\<exists>s. required_text ent t = Inr s)"
  by (auto simp: required_text_def child_text_def split: option.splits)

lemma extra_streets_cases:
  "extra_streets ent ts = Inl AttributeError \<or> (\<exists>s. extra_streets ent ts = Inr s)"
  by (induction ts) (auto split: option.splits)

text \<open>
  C6. The claim makes the COUNTRY child optional: an entity without it is to parse into
  a record with no \<open>country\<close> key. Line 36 reads \<open>ent.find('COUNTRY').text\<close> with no
  test for a missing child, so every entity with no COUNTRY child raises
  \<open>AttributeError\<close> and yields no record.
\<close>

theorem parse_ent_without_country:
  "find_child ent ''COUNTRY'' = None \<Longrightarrow> parse_ent ent = Inl AttributeError"
  using text_or_empty_cases [of ent "''NAME''"] text_or_empty_cases [of ent "''COMPANY''"]
    extra_streets_cases [of ent "[''STREET_2'', ''STREET_3'']"]
    required_text_cases [of ent "''STREET''"] required_text_cases [of ent "''CITY''"]
    required_text_cases [of ent "''STATE''"] required_text_cases [of ent "''POSTAL_CODE''"]
  unfolding parse_ent_def country_of_def
  by (auto simp: child_text_missing index_py_split_0)

text \<open>
  An entity with every child but COUNTRY: the body raises, and so does the run on a file
  that holds it.
\<close>

theorem parse_ent_without_country_witness:
  "find_child (Element ''ENT'' None
       [Element ''NAME'' (Some ''Ann Lee'') [], Element ''COMPANY'' None [],
        Element ''STREET'' (Some ''1 Main St'') [], Element ''CITY'' (Some ''Troy'') [],
        Element ''STATE'' (Some ''NY'') [], Element ''POSTAL_CODE'' (Some ''12180'') []])
     ''COUNTRY'' = None
   \<and> parse_ent (Element ''ENT'' None
       [Element ''NAME'' (Some ''Ann Lee'') [], Element ''COMPANY'' None [],
        Element ''STREET'' (Some ''1 Main St'') [], Element ''CITY'' (Some ''Troy'') [],
        Element ''STATE'' (Some ''NY'') [], Element ''POSTAL_CODE'' (Some ''12180'') []])
     = Inl AttributeError"
proof -
  have h: "find_child (Element ''ENT'' None
       [Element ''NAME'' (Some ''Ann Lee'') [], Element ''COMPANY'' None [],
        Element ''STREET'' (Some ''1 Main St'') [], Element ''CITY'' (Some ''Troy'') [],
        Element ''STATE'' (Some ''NY'') [], Element ''POSTAL_CODE'' (Some ''12180'') []])
     ''COUNTRY'' = None"
    by code_simp
  from h parse_ent_without_country [OF h] show ?thesis
    by (rule conjI)
qed

lemma main_without_country:
  "main [\<lparr>path = ''a.xml'',
          et_parse = Some (Element ''ROOT'' None [Element ''ENT'' None
            [Element ''NAME'' (Some ''Ann Lee'') [], Element ''COMPANY'' None [],
             Element ''STREET'' (Some ''1 Main St'') [], Element ''CITY'' (Some ''Troy'') [],
             Element ''STATE'' (Some ''NY'') [], Element ''POSTAL_CODE'' (Some ''12180'') []]]),
          csv_rows = None, read_text = None\<rparr>] = Inl (SystemExit 1)"
  by code_simp

section \<open>The plain-text parser\<close>

text \<open>
  C3. The claim has an empty plain-text file yield no record and no error. The split of
  line 71 turns the empty content into the one block \<open>''\<close>, whose line list has no
  second element: line 81 raises \<open>IndexError\<close> and the run ends with exit status 1.
\<close>

theorem parse_txt_empty_file:
  "py_split (strip []) ''\<newline>\<newline>'' = [[]]
   \<and> parse_txt \<lparr>path = ''empty.txt'', et_parse = None, csv_rows = None,
                 read_text = Some []\<rparr> = Inl IndexError
   \<and> main [\<lparr>path = ''empty.txt'', et_parse = None, csv_rows = None,
              read_text = Some []\<rparr>] = Inl (SystemExit 1)"
  by code_simp

text \<open>The other two parsers return no record for a file with no entry.\<close>

lemma parse_tsv_rows_empty: "parse_tsv_rows [] = Inr []"
  by (simp add: parse_tsv_rows_def dict_reader_def)

lemma parse_tsv_rows_header_only: "parse_tsv_rows [fieldnames] = Inr []"
  by (simp add: parse_tsv_rows_def dict_reader_def)

lemma parse_xml_root_no_entity: "parse_xml_root (Element t x []) = Inr []"
  by (simp add: parse_xml_root_def findall_ENT_def)

section \<open>Trimming\<close>

text \<open>
  C4. The claim has every stored string trimmed. Line 51 stores the \<open>organization\<close>
  column as it is, and line 77 stores the identity line with its commas removed and
  nothing else, while the other branch of each test trims: both values below keep
  their outer spaces.
\<close>

theorem untrimmed_values_stored:
  "parse_tsv_rows
     [[''first'', ''middle'', ''last'', ''organization'', ''address'', ''city'', ''state'',
       ''county'', ''zip'', ''zip4''],
      [[], [], [], '' Acme '', ''1 Main St'', ''Troy'', ''NY'', [], ''12180'', []]]
     = Inr [[(''organization'', PStr '' Acme ''), (''street'', PStr ''1 Main St''),
             (''city'', PStr ''Troy''), (''state'', PStr ''NY''), (''zip'', PStr ''12180'')]]
   \<and> strip '' Acme '' = ''Acme''
   \<and> parse_txt_content ''Lee, Ann \<newline>1 Main St\<newline>Troy, NY 12180''
     = Inr [[(''name'', PStr ''Lee Ann ''), (''street'', PStr ''1 Main St''),
             (''city'', PStr ''Troy''), (''state'', PStr ''NY''), (''zip'', PStr ''12180'')]]
   \<and> strip ''Lee Ann '' = ''Lee Ann''"
  by code_simp

section \<open>The postal code of an XML entity\<close>

text \<open>
  The first piece of a split ends where the separator first occurs: either the string
  is that piece, the separator and a rest, and the separator starts at no earlier
  position, or the separator occurs nowhere and the piece is the whole string.
\<close>

lemma split_scan_first:
  "sep \<noteq> [] \<Longrightarrow>
   \<exists>z. hd (split_scan sep acc s) = rev acc @ z \<and>
     ((\<exists>rest. s = z @ sep @ rest \<and> (\<forall>i<length z. \<not> startswith (drop i s) sep))
      \<or> (z = s \<and> (\<forall>i. \<not> startswith (drop i s) sep)))"
proof (induction sep acc s rule: split_scan.induct)
  case (1 sep acc)
  then show ?case by (simp add: startswith_def)
next
  case (2 sep acc c cs)
  show ?case
  proof (cases "startswith (c # cs) sep")
    case True
    then have "c # cs = [] @ sep @ drop (length sep) (c # cs)"
      by (metis append_Nil append_take_drop_id startswith_def)
    with True 2 show ?thesis
      by (intro exI [of _ "[]"]) auto
  next
    case False
    with 2 obtain z where hd: "hd (split_scan sep (c # acc) cs) = rev (c # acc) @ z"
      and z: "(\<exists>rest. cs = z @ sep @ rest \<and> (\<forall>i<length z. \<not> startswith (drop i cs) sep))
              \<or> (z = cs \<and> (\<forall>i. \<not> startswith (drop i cs) sep))"
      by auto
    from z show ?thesis
    proof
      assume "\<exists>rest. cs = z @ sep @ rest \<and> (\<forall>i<length z. \<not> startswith (drop i cs) sep)"
      then obtain rest where r: "cs = z @ sep @ rest"
        and n: "\<forall>i<length z. \<not> startswith (drop i cs) sep"
        by blast
      have "\<forall>i<length (c # z). \<not> startswith (drop i (c # cs)) sep"
      proof (intro allI impI)
        fix i assume "i < length (c # z)"
        then show "\<not> startswith (drop i (c # cs)) sep"
          using n False by (cases i) auto
      qed
      moreover have "c # cs = (c # z) @ sep @ rest" using r by simp
      ultimately show ?thesis using hd False
        by (intro exI [of _ "c # z"]) auto
    next
      assume a: "z = cs \<and> (\<forall>i. \<not> startswith (drop i cs) sep)"
      have "\<forall>i. \<not> startswith (drop i (c # cs)) sep"
      proof
        fix i show "\<not> startswith (drop i (c # cs)) sep"
          using a False by (cases i) auto
      qed
      then show ?thesis using hd False a
        by (intro exI [of _ "c # z"]) auto
    qed
  qed
qed

lemma required_text_Inr:
  "required_text ent t = Inr s \<Longrightarrow>
   \<exists>c x. find_child ent t = Some c \<and> etext c = Some x \<and> s = strip x"
  by (auto simp: required_text_def child_text_def split: option.splits)

lemma parse_ent_zip:
  "parse_ent ent = Inr r \<Longrightarrow>
   \<exists>p. required_text ent ''POSTAL_CODE'' = Inr p \<and>
       map_of r ''zip'' = Some (PStr (hd (py_split p '' -'')))"
  unfolding parse_ent_def
  by (auto simp: err_bind_eq_Inr index_py_split_0 Let_def map_of_setitem)

text \<open>
  C8. The \<open>zip\<close> of the record of an XML entity is the trimmed POSTAL_CODE text cut at
  the first occurrence of the two characters space and hyphen: the trimmed text is the
  \<open>zip\<close>, then \<open>'' -''\<close>, then a rest, with no occurrence of \<open>'' -''\<close> starting inside the
  \<open>zip\<close>; or it has no occurrence at all and is the \<open>zip\<close>.
\<close>

theorem xml_zip_truncated:
  assumes "parse_ent ent = Inr r"
  shows "\<exists>c t z. find_child ent ''POSTAL_CODE'' = Some c \<and> etext c = Some t \<and>
           map_of r ''zip'' = Some (PStr z) \<and>
           ((\<exists>rest. strip t = z @ '' -'' @ rest \<and>
                    (\<forall>i<length z. \<not> startswith (drop i (strip t)) '' -''))
            \<or> (z = strip t \<and> (\<forall>i. \<not> startswith (drop i (strip t)) '' -'')))"
proof -
  from parse_ent_zip [OF assms] obtain p where p: "required_text ent ''POSTAL_CODE'' = Inr p"
    and z: "map_of r ''zip'' = Some (PStr (hd (py_split p '' -'')))"
    by blast
  from required_text_Inr [OF p] obtain c t where c: "find_child ent ''POSTAL_CODE'' = Some c"
    and t: "etext c = Some t" and pt: "p = strip t"
    by blast
  have "'' -'' \<noteq> []" by simp
  from split_scan_first [OF this, of "[]" p] z c t pt show ?thesis
    by (auto simp: py_split_def)
qed

text \<open>The postal code \<open>12345 -6789\<close> gives the \<open>zip\<close> \<open>12345\<close>.\<close>

theorem xml_zip_truncated_witness:
  "let ent = Element ''ENT'' None
         [Element ''NAME'' (Some ''Ann Lee'') [], Element ''COMPANY'' None [],
          Element ''STREET'' (Some ''1 Main St'') [], Element ''CITY'' (Some ''Troy'') [],
          Element ''STATE'' (Some ''NY'') [], Element ''POSTAL_CODE'' (Some '' 12345 -6789'') [],
          Element ''COUNTRY'' None []];
       r = [(''name'', PStr ''Ann Lee''), (''street'', PStr ''1 Main St''),
            (''city'', PStr ''Troy''), (''state'', PStr ''NY''), (''zip'', PStr ''12345'')]
   in parse_ent ent = Inr r \<and> map_of r ''zip'' = Some (PStr ''12345'')
      \<and> strip '' 12345 -6789'' = ''12345'' @ '' -'' @ ''6789''
      \<and> (\<exists>c t z. find_child ent ''POSTAL_CODE'' = Some c \<and> etext c = Some t \<and>
           map_of r ''zip'' = Some (PStr z) \<and>
           ((\<exists>rest. strip t = z @ '' -'' @ rest \<and>
                    (\<forall>i<length z. \<not> startswith (drop i (strip t)) '' -''))
            \<or> (z = strip t \<and> (\<forall>i. \<not> startswith (drop i (strip t)) '' -''))))"
proof -
  let ?ent = "Element ''ENT'' None
         [Element ''NAME'' (Some ''Ann Lee'') [], Element ''COMPANY'' None [],
          Element ''STREET'' (Some ''1 Main St'') [], Element ''CITY'' (Some ''Troy'') [],
          Element ''STATE'' (Some ''NY'') [], Element ''POSTAL_CODE'' (Some '' 12345 -6789'') [],
          Element ''COUNTRY'' None []]"
  let ?r = "[(''name'', PStr ''Ann Lee''), (''street'', PStr ''1 Main St''),
            (''city'', PStr ''Troy''), (''state'', PStr ''NY''), (''zip'', PStr ''12345'')]"
  have ev: "parse_ent ?ent = Inr ?r"
    by code_simp
  have z: "map_of ?r ''zip'' = Some (PStr ''12345'')"
    by simp
  have s: "strip '' 12345 -6789'' = ''12345'' @ '' -'' @ ''6789''"
    by code_simp
  from ev z s xml_zip_truncated [OF ev] show ?thesis
    unfolding Let_def by (intro conjI)
qed

section \<open>An XML entity with no identity\<close>

lemma text_or_empty_blank:
  "find_child ent t = Some n \<Longrightarrow> blank (etext n) \<Longrightarrow> text_or_empty ent t = Inr []"
  by (auto simp: text_or_empty_def child_text_def blank_def split: option.splits)

lemma required_text_present:
  "find_child ent t = Some x \<Longrightarrow> etext x = Some s \<Longrightarrow> required_text ent t = Inr (strip s)"
  by (simp add: required_text_def child_text_def)

lemma extra_streets_ok:
  "\<forall>t\<in>set ts. \<forall>x. find_child ent t = Some x \<longrightarrow> etext x \<noteq> None \<Longrightarrow>
   \<exists>ss. extra_streets ent ts = Inr ss"
  by (induction ts) (auto split: option.splits)

lemma country_of_present: "find_child ent ''COUNTRY'' \<noteq> None \<Longrightarrow> \<exists>v. country_of ent = Inr v"
  by (auto simp: country_of_def child_text_def split: option.splits)

text \<open>
  The loop body on an entity whose NAME and COMPANY children are both there with blank
  texts, and whose other children are as the rest of the body needs them: STREET, CITY,
  STATE and POSTAL_CODE with a text, COUNTRY present, and STREET_2 and STREET_3 with a
  text when present. It returns a record with neither a \<open>name\<close> nor an
  \<open>organization\<close> key.
\<close>

lemma parse_ent_blank_identity:
  assumes name: "find_child ent ''NAME'' = Some n" "blank (etext n)"
    and company: "find_child ent ''COMPANY'' = Some c" "blank (etext c)"
    and required: "\<forall>t\<in>set [''STREET'', ''CITY'', ''STATE'', ''POSTAL_CODE''].
                     \<exists>x s. find_child ent t = Some x \<and> etext x = Some s"
    and streets: "\<forall>t\<in>set [''STREET_2'', ''STREET_3''].
                     \<forall>x. find_child ent t = Some x \<longrightarrow> etext x \<noteq> None"
    and country: "find_child ent ''COUNTRY'' \<noteq> None"
  shows "\<exists>r. parse_ent ent = Inr r \<and> \<not> has_key r ''name'' \<and> \<not> has_key r ''organization''"
proof -
  have n: "text_or_empty ent ''NAME'' = Inr []"
    using name by (rule text_or_empty_blank)
  have c: "text_or_empty ent ''COMPANY'' = Inr []"
    using company by (rule text_or_empty_blank)
  from extra_streets_ok [OF streets] obtain ss
    where ss: "extra_streets ent [''STREET_2'', ''STREET_3''] = Inr ss" by blast
  from required obtain s1 s2 s3 s4
    where r: "required_text ent ''STREET'' = Inr s1" "required_text ent ''CITY'' = Inr s2"
      "required_text ent ''STATE'' = Inr s3" "required_text ent ''POSTAL_CODE'' = Inr s4"
    by (auto simp: required_text_present)
  from country_of_present [OF country] obtain v where v: "country_of ent = Inr v" by blast
  show ?thesis
    unfolding parse_ent_def
    by (simp add: n c ss r v index_py_split_0 xml_identity_def Let_def has_key_def
        del: extra_streets.simps)
qed

section \<open>The TSV parser\<close>


lemma map_err_Inr:
  "map_err f xs = Inr ys \<Longrightarrow> length ys = length xs \<and> (\<forall>i<length xs. f (xs ! i) = Inr (ys ! i))"
proof (induction xs arbitrary: ys)
  case Nil
  then show ?case by simp
next
  case (Cons x xs)
  from Cons.prems obtain y ys' where y: "f x = Inr y" and ys': "map_err f xs = Inr ys'"
    and ys: "ys = y # ys'"
    by (auto simp: err_bind_eq_Inr)
  from Cons.IH [OF ys'] y ys show ?case
    by (auto simp: nth_Cons split: nat.splits)
qed

lemma map_err_first_fails: "f x = Inl e \<Longrightarrow> map_err f (x # xs) = Inl e"
  by simp

text \<open>The keys of a row of \<open>csv.DictReader\<close> are field names of the header.\<close>

lemma has_key_fold_cells:
  "has_key (fold (\<lambda>(k, v) d. setitem d k (PStr v)) kvs d) k = (k \<in> fst ` set kvs \<or> has_key d k)"
  by (induction kvs arbitrary: d) (auto simp: case_prod_beta)

lemma has_key_fold_rest:
  "has_key (fold (\<lambda>k d. setitem d k PNone) ks d) k = (k \<in> set ks \<or> has_key d k)"
  by (induction ks arbitrary: d) auto

lemma has_key_make_row: "has_key (make_row fieldnames row) k \<Longrightarrow> k \<in> set fieldnames"
  by (auto simp: make_row_def Let_def has_key_fold_cells has_key_fold_rest
      dest: set_zip_leftD in_set_dropD)

lemma tsv_county_missing: "map_of row ''county'' = None \<Longrightarrow> tsv_county row address = Inl KeyError"
  by (simp add: tsv_county_def dict_get_def getitem_def)

lemma parse_row_needs_county:
  assumes "map_of row ''county'' = None"
  shows "\<exists>e. parse_row row = Inl e"
proof (cases "parse_row row")
  case (Inl e)
  then show ?thesis by blast
next
  case (Inr r)
  then show ?thesis
    unfolding parse_row_def
    by (auto simp: err_bind_eq_Inr tsv_county_missing [OF assms])
qed

text \<open>A file whose parser raises ends the run with exit status 1.\<close>

lemma tsv_not_xml: "endswith p ''.tsv'' \<Longrightarrow> \<not> endswith p ''.xml''"
  by (auto simp: endswith_def startswith_def)

lemma collect_fails:
  "f \<in> set files \<Longrightarrow> dispatch f = Inl e \<Longrightarrow> collect acc files = Inl (SystemExit 1)"
  by (induction files arbitrary: acc) (auto split: sum.splits)

lemma main_fails:
  "f \<in> set files \<Longrightarrow> dispatch f = Inl e \<Longrightarrow> main files = Inl (SystemExit 1)"
  by (auto simp: main_def collect_fails)

lemma tsv_identity_keys:
  "tsv_identity row = Inr a \<Longrightarrow> has_key a k \<Longrightarrow> k = ''name'' \<or> k = ''organization''"
  by (auto simp: tsv_identity_def err_bind_eq_Inr has_key_def split: if_splits)

lemma tsv_county_key:
  "tsv_county row a = Inr a' \<Longrightarrow>
   has_key a' ''county'' = (has_key a ''county'' \<or> map_of row ''county'' \<noteq> Some (PStr []))"
  by (auto simp: tsv_county_def err_bind_eq_Inr dict_get_def getitem_def
      split: if_splits option.splits)

lemma parse_row_county_key:
  assumes "parse_row row = Inr r"
  shows "(\<not> has_key r ''county'') = (map_of row ''county'' = Some (PStr []))"
proof -
  from assms obtain a street a' where a: "tsv_identity row = Inr a"
    and a': "tsv_county row (setitem a ''street'' (PStr street)) = Inr a'"
    and r: "has_key r ''county'' = has_key a' ''county''"
    unfolding parse_row_def by (auto simp: err_bind_eq_Inr)
  from tsv_identity_keys [OF a, of "''county''"] have "\<not> has_key a ''county''"
    by auto
  with tsv_county_key [OF a'] r show ?thesis
    by simp
qed

lemma tsv_zip_value:
  "tsv_zip row = Inr zp \<Longrightarrow>
   \<exists>z v4. map_of row ''zip'' = Some (PStr z) \<and> map_of row ''zip4'' = Some v4 \<and>
     zp = (case v4 of
             PStr z4 \<Rightarrow> if z4 \<noteq> [] then strip z @ ''-'' @ strip z4 else strip z
           | PNone \<Rightarrow> strip z)"
  unfolding tsv_zip_def
  apply (auto simp: err_bind_eq_Inr getitem_def split: option.splits if_splits pyval.splits)
  subgoal for v vz by (cases v; cases vz) auto
  subgoal for v vz by (cases v; cases vz) auto
  done


lemma parse_tsv_rows_nth:
  assumes "parse_tsv_rows rows = Inr recs" and "i < length recs"
  shows "length recs = length (dict_reader rows)"
    and "parse_row (dict_reader rows ! i) = Inr (recs ! i)"
  using map_err_Inr [OF assms(1) [unfolded parse_tsv_rows_def]] assms(2) by auto

lemma parse_row_zip:
  "parse_row row = Inr r \<Longrightarrow> \<exists>zp. tsv_zip row = Inr zp \<and> map_of r ''zip'' = Some (PStr zp)"
  unfolding parse_row_def
  by (auto simp: err_bind_eq_Inr map_of_setitem)

text \<open>
  C7. For every data row of a TSV file that parses, the \<open>zip\<close> of the row's record is
  the trimmed \<open>zip\<close> column, a hyphen and the trimmed \<open>zip4\<close> column when the
  \<open>zip4\<close> field is a non-empty string, and the trimmed \<open>zip\<close> column alone when it is
  empty (or \<open>None\<close>, in a row shorter than the header). The records are as many as
  the rows of the reader, in the same order.
\<close>

theorem tsv_zip_plus4:
  assumes "parse_tsv_rows rows = Inr recs" and "i < length recs"
  shows "length recs = length (dict_reader rows) \<and>
         (\<exists>z v4. map_of (dict_reader rows ! i) ''zip'' = Some (PStr z) \<and>
                  map_of (dict_reader rows ! i) ''zip4'' = Some v4 \<and>
                  map_of (recs ! i) ''zip'' =
                    Some (PStr (case v4 of
                                  PStr z4 \<Rightarrow> if z4 \<noteq> [] then strip z @ ''-'' @ strip z4 else strip z
                                | PNone \<Rightarrow> strip z)))"
proof -
  from parse_row_zip [OF parse_tsv_rows_nth(2) [OF assms]] obtain zp
    where zp: "tsv_zip (dict_reader rows ! i) = Inr zp"
      and r: "map_of (recs ! i) ''zip'' = Some (PStr zp)"
    by blast
  from tsv_zip_value [OF zp] r parse_tsv_rows_nth(1) [OF assms] show ?thesis
    by auto
qed

text \<open>The rows of the specification: \<open>zip4\<close> \<open>1234\<close> and an empty \<open>zip4\<close>.\<close>

theorem tsv_zip_plus4_witness:
  "let rows = [[''first'', ''middle'', ''last'', ''organization'', ''address'', ''city'',
                ''state'', ''county'', ''zip'', ''zip4''],
               [''Ann'', [], ''Lee'', ''N/A'', ''1 Main St'', ''Troy'', ''NY'', [],
                '' 94105 '', ''1234 ''],
               [[], [], [], ''Acme'', ''2 Elm St'', ''Troy'', ''NY'', [], ''94105'', []]];
       recs = [[(''name'', PStr ''Ann Lee''), (''street'', PStr ''1 Main St''),
                (''city'', PStr ''Troy''), (''state'', PStr ''NY''),
                (''zip'', PStr ''94105-1234'')],
               [(''organization'', PStr ''Acme''), (''street'', PStr ''2 Elm St''),
                (''city'', PStr ''Troy''), (''state'', PStr ''NY''), (''zip'', PStr ''94105'')]]
   in parse_tsv_rows rows = Inr recs
      \<and> map_of (dict_reader rows ! 0) ''zip4'' = Some (PStr ''1234 '')
      \<and> map_of (recs ! 0) ''zip'' = Some (PStr ''94105-1234'')
      \<and> map_of (dict_reader rows ! 1) ''zip4'' = Some (PStr [])
      \<and> map_of (recs ! 1) ''zip'' = Some (PStr ''94105'')
      \<and> length recs = length (dict_reader rows)
      \<and> (\<exists>z v4. map_of (dict_reader rows ! 1) ''zip'' = Some (PStr z) \<and>
                  map_of (dict_reader rows ! 1) ''zip4'' = Some v4 \<and>
                  map_of (recs ! 1) ''zip'' =
                    Some (PStr (case v4 of
                                  PStr z4 \<Rightarrow> if z4 \<noteq> [] then strip z @ ''-'' @ strip z4 else strip z
                                | PNone \<Rightarrow> strip z)))"
proof -
  let ?rows = "[[''first'', ''middle'', ''last'', ''organization'', ''address'', ''city'',
                ''state'', ''county'', ''zip'', ''zip4''],
               [''Ann'', [], ''Lee'', ''N/A'', ''1 Main St'', ''Troy'', ''NY'', [],
                '' 94105 '', ''1234 ''],
               [[], [], [], ''Acme'', ''2 Elm St'', ''Troy'', ''NY'', [], ''94105'', []]]"
  let ?recs = "[[(''name'', PStr ''Ann Lee''), (''street'', PStr ''1 Main St''),
                (''city'', PStr ''Troy''), (''state'', PStr ''NY''),
                (''zip'', PStr ''94105-1234'')],
               [(''organization'', PStr ''Acme''), (''street'', PStr ''2 Elm St''),
                (''city'', PStr ''Troy''), (''state'', PStr ''NY''), (''zip'', PStr ''94105'')]]"
  have ev: "parse_tsv_rows ?rows = Inr ?recs"
    by code_simp
  have i: "1 < length ?recs"
    by simp
  have c: "map_of (dict_reader ?rows ! 0) ''zip4'' = Some (PStr ''1234 '')"
    "map_of (?recs ! 0) ''zip'' = Some (PStr ''94105-1234'')"
    "map_of (dict_reader ?rows ! 1) ''zip4'' = Some (PStr [])"
    "map_of (?recs ! 1) ''zip'' = Some (PStr ''94105'')"
    by code_simp+
  from tsv_zip_plus4 [OF ev i] ev c show ?thesis
    unfolding Let_def by (intro conjI) blast+
qed

text \<open>
  C10. When the header has no \<open>county\<close> column, the first data row (the first row after
  the header that is not empty) raises an error, \<open>parse_tsv\<close> raises it, and a run over
  any file list that holds the file ends with exit status 1. A record has no \<open>county\<close>
  key exactly when the row has the value \<open>''\<close> in that column.
\<close>

theorem tsv_county_required:
  "(''county'' \<notin> set fieldnames \<and> filter (\<lambda>r. r \<noteq> []) rest = first # others \<longrightarrow>
      (\<exists>e. parse_row (make_row fieldnames first) = Inl e \<and>
           parse_tsv_rows (fieldnames # rest) = Inl e) \<and>
      (\<forall>files f. f \<in> set files \<and> endswith (path f) ''.tsv'' \<and>
                 csv_rows f = Some (fieldnames # rest) \<longrightarrow> main files = Inl (SystemExit 1)))
   \<and> (parse_row row = Inr r \<longrightarrow>
        (\<not> has_key r ''county'') = (map_of row ''county'' = Some (PStr [])))"
proof (intro conjI impI)
  assume a: "''county'' \<notin> set fieldnames \<and> filter (\<lambda>r. r \<noteq> []) rest = first # others"
  then have "\<not> has_key (make_row fieldnames first) ''county''"
    using has_key_make_row by blast
  then have "map_of (make_row fieldnames first) ''county'' = None"
    by (simp add: has_key_def)
  from parse_row_needs_county [OF this] obtain e
    where e: "parse_row (make_row fieldnames first) = Inl e" by blast
  with a have t: "parse_tsv_rows (fieldnames # rest) = Inl e"
    by (simp add: parse_tsv_rows_def dict_reader_def)
  from e t show "\<exists>e. parse_row (make_row fieldnames first) = Inl e \<and>
           parse_tsv_rows (fieldnames # rest) = Inl e"
    by blast
  show "\<forall>files f. f \<in> set files \<and> endswith (path f) ''.tsv'' \<and>
                 csv_rows f = Some (fieldnames # rest) \<longrightarrow> main files = Inl (SystemExit 1)"
  proof (intro allI impI)
    fix files :: "input_file list" and f :: input_file
    assume f: "f \<in> set files \<and> endswith (path f) ''.tsv'' \<and>
                 csv_rows f = Some (fieldnames # rest)"
    then have "dispatch f = Inl e"
      using t by (simp add: dispatch_def tsv_not_xml parse_tsv_def)
    with f show "main files = Inl (SystemExit 1)"
      using main_fails by blast
  qed
next
  assume "parse_row row = Inr r"
  then show "(\<not> has_key r ''county'') = (map_of row ''county'' = Some (PStr []))"
    by (rule parse_row_county_key)
qed

text \<open>A header with no \<open>county\<close> column, and the same row with an empty \<open>county\<close>.\<close>

theorem tsv_county_required_witness:
  "let fieldnames = [''first'', ''middle'', ''last'', ''organization'', ''address'', ''city'',
                     ''state'', ''zip'', ''zip4''];
       first = [''Ann'', [], ''Lee'', ''N/A'', ''1 Main St'', ''Troy'', ''NY'', ''12180'', []];
       f = \<lparr>path = ''a.tsv'', et_parse = None, csv_rows = Some [fieldnames, [], first],
            read_text = None\<rparr>;
       row = make_row (''county'' # fieldnames) ([] # first);
       r = [(''name'', PStr ''Ann Lee''), (''street'', PStr ''1 Main St''),
            (''city'', PStr ''Troy''), (''state'', PStr ''NY''), (''zip'', PStr ''12180'')]
   in ''county'' \<notin> set fieldnames \<and> filter (\<lambda>r. r \<noteq> []) [[], first] = [first]
      \<and> parse_row (make_row fieldnames first) = Inl KeyError
      \<and> parse_tsv_rows [fieldnames, [], first] = Inl KeyError
      \<and> endswith (path f) ''.tsv''
      \<and> main [f] = Inl (SystemExit 1)
      \<and> parse_row row = Inr r
      \<and> \<not> has_key r ''county''
      \<and> map_of row ''county'' = Some (PStr [])"
proof -
  let ?fieldnames = "[''first'', ''middle'', ''last'', ''organization'', ''address'', ''city'',
                     ''state'', ''zip'', ''zip4'']"
  let ?first = "[''Ann'', [], ''Lee'', ''N/A'', ''1 Main St'', ''Troy'', ''NY'', ''12180'', []]"
  let ?f = "\<lparr>path = ''a.tsv'', et_parse = None, csv_rows = Some [?fieldnames, [], ?first],
            read_text = None\<rparr>"
  let ?row = "make_row (''county'' # ?fieldnames) ([] # ?first)"
  let ?r = "[(''name'', PStr ''Ann Lee''), (''street'', PStr ''1 Main St''),
            (''city'', PStr ''Troy''), (''state'', PStr ''NY''), (''zip'', PStr ''12180'')]"
  have h1: "''county'' \<notin> set ?fieldnames \<and> filter (\<lambda>r. r \<noteq> []) [[], ?first] = [?first]"
    by simp
  have h2: "?f \<in> set [?f] \<and> endswith (path ?f) ''.tsv'' \<and>
            csv_rows ?f = Some (?fieldnames # [[], ?first])"
    by (simp add: endswith_def startswith_def)
  have h3: "parse_row ?row = Inr ?r"
    by code_simp
  have e: "parse_row (make_row ?fieldnames ?first) = Inl KeyError"
    by code_simp
  note t = tsv_county_required [of ?fieldnames "[[], ?first]" ?first "[]" ?row ?r]
  from t h1 e have p: "parse_tsv_rows [?fieldnames, [], ?first] = Inl KeyError"
    by auto
  from t h1 h2 have m: "main [?f] = Inl (SystemExit 1)"
    by blast
  from t h3 have c: "\<not> has_key ?r ''county''" "map_of ?row ''county'' = Some (PStr [])"
    by (simp_all add: has_key_def)
  from h1 h2 h3 e p m c show ?thesis
    unfolding Let_def by (intro conjI) simp_all
qed

section \<open>The run: concatenation and sort\<close>

text \<open>A run that succeeds has parsed every file and holds the contributions in file order.\<close>


lemma collect_Inr:
  "collect acc files = Inr out \<Longrightarrow>
   (\<forall>f\<in>set files. \<exists>rs. dispatch f = Inr rs) \<and> out = acc @ concat (map contribution files)"
proof (induction files arbitrary: acc)
  case Nil
  then show ?case by simp
next
  case (Cons f files)
  from Cons.prems obtain rs where rs: "dispatch f = Inr rs"
    and c: "collect (acc @ rs) files = Inr out"
    by (auto split: sum.splits)
  from Cons.IH [OF c] rs show ?case
    by (simp add: contribution_def)
qed

text \<open>Every record comes from an entry of a file, and every parser stores a string as \<open>zip\<close>.\<close>

lemma map_err_member:
  "map_err f xs = Inr ys \<Longrightarrow> y \<in> set ys \<Longrightarrow> \<exists>x\<in>set xs. f x = Inr y"
  by (induction xs arbitrary: ys) (auto simp: err_bind_eq_Inr)

lemma txt_city_state_zip_zip:
  "txt_city_state_zip csz a = Inr r \<Longrightarrow> \<exists>s. map_of r ''zip'' = Some (PStr s)"
  by (auto simp: txt_city_state_zip_def err_bind_eq_Inr Let_def map_of_setitem)

lemma parse_block_zip: "parse_block b = Inr r \<Longrightarrow> \<exists>s. map_of r ''zip'' = Some (PStr s)"
  unfolding parse_block_def
  by (auto simp: err_bind_eq_Inr Let_def split: if_splits dest: txt_city_state_zip_zip)

lemma dispatch_member:
  assumes "dispatch f = Inr rs" and "x \<in> set rs"
  shows "(endswith (path f) ''.xml'' \<and>
            (\<exists>root ent. et_parse f = Some root \<and> ent \<in> set (findall_ENT root) \<and> parse_ent ent = Inr x))
         \<or> (endswith (path f) ''.tsv'' \<and>
            (\<exists>rows row. csv_rows f = Some rows \<and> row \<in> set (dict_reader rows) \<and> parse_row row = Inr x))
         \<or> (endswith (path f) ''.txt'' \<and>
            (\<exists>s b. read_text f = Some s \<and> b \<in> set (py_split (strip s) ''\<newline>\<newline>'') \<and>
                   parse_block b = Inr x))"
  using assms
  by (auto simp: dispatch_def parse_xml_def parse_tsv_def parse_txt_def parse_xml_root_def
      parse_tsv_rows_def parse_txt_content_def
      split: if_splits option.splits dest: map_err_member)

lemma dispatch_zip:
  assumes "dispatch f = Inr rs" and "x \<in> set rs"
  shows "\<exists>s. map_of x ''zip'' = Some (PStr s)"
  using dispatch_member [OF assms] parse_ent_zip parse_row_zip parse_block_zip
  by blast

lemma collect_zip:
  assumes "collect [] files = Inr recs" and "x \<in> set recs"
  shows "\<exists>s. map_of x ''zip'' = Some (PStr s) \<and> sort_key_of x = PStr s \<and> zip_key x = s"
proof -
  from collect_Inr [OF assms(1)] assms(2) obtain f rs
    where "f \<in> set files" "dispatch f = Inr rs" "x \<in> set rs"
    by (fastforce simp: contribution_def)
  from dispatch_zip [OF this(2,3)] show ?thesis
    by (auto simp: sort_key_of_def zip_key_def dict_get_def)
qed

lemma main_Inr:
  assumes "main files = Inr out"
  shows "collect [] files = Inr (concat (map contribution files))"
    and "out = sort_key zip_key (concat (map contribution files))"
proof -
  from assms obtain recs where c: "collect [] files = Inr recs" and s: "sort_records recs = Inr out"
    by (auto simp: main_def err_bind_eq_Inr split: if_splits)
  from collect_Inr [OF c] have r: "recs = concat (map contribution files)"
    by simp
  from c r show "collect [] files = Inr (concat (map contribution files))"
    by simp
  from s r show "out = sort_key zip_key (concat (map contribution files))"
    by (auto simp: sort_records_def split: if_splits)
qed

text \<open>
  C2. The list a run writes is sorted in ascending order of the keys \<open>zip_key\<close>, compared
  as strings; records with the same key are in the order they have in the concatenation
  of the files' contributions (file order, then order within the file), and the list is
  a permutation of that concatenation. The key of a record with no \<open>zip\<close> would be
  \<open>99999\<close>; every record of a run has a string as \<open>zip\<close>, which is its key. By
  \<open>properties_for_sort_key\<close> these three properties determine the list, so that the
  insertion sort \<open>sort_key\<close> stands for any stable sort.
\<close>

theorem main_sorted_by_zip:
  assumes "main files = Inr out"
  shows "sorted (map zip_key out)
         \<and> (\<forall>k. filter (\<lambda>x. zip_key x = k) out
                = filter (\<lambda>x. zip_key x = k) (concat (map contribution files)))
         \<and> mset out = mset (concat (map contribution files))
         \<and> (\<forall>x\<in>set out. \<exists>s. map_of x ''zip'' = Some (PStr s) \<and> zip_key x = s)
         \<and> (\<forall>x. map_of x ''zip'' = None \<longrightarrow> zip_key x = ''99999'')"
proof -
  let ?recs = "concat (map contribution files)"
  note m = main_Inr [OF assms]
  have "sorted (map zip_key out)"
    by (simp add: m(2))
  moreover have "\<forall>k. filter (\<lambda>x. zip_key x = k) out = filter (\<lambda>x. zip_key x = k) ?recs"
    by (simp add: m(2) sort_key_stable)
  moreover have "mset out = mset ?recs"
    by (simp add: m(2))
  moreover have "\<forall>x\<in>set out. \<exists>s. map_of x ''zip'' = Some (PStr s) \<and> zip_key x = s"
  proof
    fix x assume "x \<in> set out"
    then have "x \<in> set ?recs" by (simp add: m(2))
    from collect_zip [OF m(1) this] show "\<exists>s. map_of x ''zip'' = Some (PStr s) \<and> zip_key x = s"
      by blast
  qed
  moreover have "\<forall>x. map_of x ''zip'' = None \<longrightarrow> zip_key x = ''99999''"
    by (simp add: zip_key_def sort_key_of_def dict_get_def)
  ultimately show ?thesis by blast
qed

text \<open>The sort never raises: a run fails only when it has no file or a parser raises.\<close>

lemma collect_ok:
  "\<forall>f\<in>set files. \<exists>rs. dispatch f = Inr rs \<Longrightarrow>
   collect acc files = Inr (acc @ concat (map contribution files))"
  by (induction files arbitrary: acc) (auto simp: contribution_def)

lemma main_total:
  assumes "files \<noteq> []" and "\<forall>f\<in>set files. \<exists>rs. dispatch f = Inr rs"
  shows "main files = Inr (sort_key zip_key (concat (map contribution files)))"
proof -
  let ?recs = "concat (map contribution files)"
  from collect_ok [OF assms(2), of "[]"] have c: "collect [] files = Inr ?recs"
    by simp
  have "\<not> list_ex (\<lambda>x. sort_key_of x = PNone) ?recs"
    using collect_zip [OF c] by (auto simp: list_ex_iff simp del: set_concat)
  with c assms(1) show ?thesis
    by (simp add: main_def sort_records_def)
qed

text \<open>
  One file of each kind. \<open>10001-0001\<close> and \<open>200\<close> come before \<open>30301\<close> as strings;
  the two records with \<open>30301\<close> keep the order of their files.
\<close>

theorem main_sorted_by_zip_witness:
  "let files =
        [\<lparr>path = ''a.xml'',
           et_parse = Some (Element ''ROOT'' None [Element ''ENT'' None
             [Element ''NAME'' (Some ''Ann Lee'') [], Element ''COMPANY'' None [],
              Element ''STREET'' (Some ''1 Main St'') [], Element ''CITY'' (Some ''Atlanta'') [],
              Element ''STATE'' (Some ''GA'') [], Element ''POSTAL_CODE'' (Some ''30301'') [],
              Element ''COUNTRY'' None []]]),
           csv_rows = None, read_text = None\<rparr>,
         \<lparr>path = ''b.tsv'', et_parse = None,
           csv_rows = Some [[''first'', ''middle'', ''last'', ''organization'', ''address'',
                             ''city'', ''state'', ''county'', ''zip'', ''zip4''],
                            [[], [], [], ''Acme'', ''2 Elm St'', ''New York'', ''NY'', [],
                             ''10001'', ''0001'']],
           read_text = None\<rparr>,
         \<lparr>path = ''c.txt'', et_parse = None, csv_rows = None,
           read_text = Some ''Bo Day\<newline>3 Oak St\<newline>Beverly Hills, CA 90210\<newline>\<newline>Cy Orr\<newline>4 Fir St\<newline>Atlanta, GA 30301\<newline>\<newline>Di Poe\<newline>5 Ash St\<newline>Nome, AK 200''\<rparr>];
       a = [(''name'', PStr ''Ann Lee''), (''street'', PStr ''1 Main St''),
            (''city'', PStr ''Atlanta''), (''state'', PStr ''GA''), (''zip'', PStr ''30301'')];
       b = [(''organization'', PStr ''Acme''), (''street'', PStr ''2 Elm St''),
            (''city'', PStr ''New York''), (''state'', PStr ''NY''),
            (''zip'', PStr ''10001-0001'')];
       c1 = [(''name'', PStr ''Bo Day''), (''street'', PStr ''3 Oak St''),
             (''city'', PStr ''Beverly Hills''), (''state'', PStr ''CA''),
             (''zip'', PStr ''90210'')];
       c2 = [(''name'', PStr ''Cy Orr''), (''street'', PStr ''4 Fir St''),
             (''city'', PStr ''Atlanta''), (''state'', PStr ''GA''), (''zip'', PStr ''30301'')];
       c3 = [(''name'', PStr ''Di Poe''), (''street'', PStr ''5 Ash St''),
             (''city'', PStr ''Nome''), (''state'', PStr ''AK''), (''zip'', PStr ''200'')]
   in main files = Inr [b, c3, a, c2, c1]
      \<and> concat (map contribution files) = [a, b, c1, c2, c3]
      \<and> map zip_key [b, c3, a, c2, c1] = [''10001-0001'', ''200'', ''30301'', ''30301'', ''90210'']
      \<and> sorted (map zip_key [b, c3, a, c2, c1])
      \<and> filter (\<lambda>x. zip_key x = ''30301'') [b, c3, a, c2, c1]
          = filter (\<lambda>x. zip_key x = ''30301'') (concat (map contribution files))
      \<and> filter (\<lambda>x. zip_key x = ''30301'') [b, c3, a, c2, c1] = [a, c2]"
proof -
  let ?files =
       "[\<lparr>path = ''a.xml'',
           et_parse = Some (Element ''ROOT'' None [Element ''ENT'' None
             [Element ''NAME'' (Some ''Ann Lee'') [], Element ''COMPANY'' None [],
              Element ''STREET'' (Some ''1 Main St'') [], Element ''CITY'' (Some ''Atlanta'') [],
              Element ''STATE'' (Some ''GA'') [], Element ''POSTAL_CODE'' (Some ''30301'') [],
              Element ''COUNTRY'' None []]]),
           csv_rows = None, read_text = None\<rparr>,
         \<lparr>path = ''b.tsv'', et_parse = None,
           csv_rows = Some [[''first'', ''middle'', ''last'', ''organization'', ''address'',
                             ''city'', ''state'', ''county'', ''zip'', ''zip4''],
                            [[], [], [], ''Acme'', ''2 Elm St'', ''New York'', ''NY'', [],
                             ''10001'', ''0001'']],
           read_text = None\<rparr>,
         \<lparr>path = ''c.txt'', et_parse = None, csv_rows = None,
           read_text = Some ''Bo Day\<newline>3 Oak St\<newline>Beverly Hills, CA 90210\<newline>\<newline>Cy Orr\<newline>4 Fir St\<newline>Atlanta, GA 30301\<newline>\<newline>Di Poe\<newline>5 Ash St\<newline>Nome, AK 200''\<rparr>]"
  let ?a = "[(''name'', PStr ''Ann Lee''), (''street'', PStr ''1 Main St''),
            (''city'', PStr ''Atlanta''), (''state'', PStr ''GA''), (''zip'', PStr ''30301'')]"
  let ?b = "[(''organization'', PStr ''Acme''), (''street'', PStr ''2 Elm St''),
            (''city'', PStr ''New York''), (''state'', PStr ''NY''),
            (''zip'', PStr ''10001-0001'')]"
  let ?c1 = "[(''name'', PStr ''Bo Day''), (''street'', PStr ''3 Oak St''),
             (''city'', PStr ''Beverly Hills''), (''state'', PStr ''CA''),
             (''zip'', PStr ''90210'')]"
  let ?c2 = "[(''name'', PStr ''Cy Orr''), (''street'', PStr ''4 Fir St''),
             (''city'', PStr ''Atlanta''), (''state'', PStr ''GA''), (''zip'', PStr ''30301'')]"
  let ?c3 = "[(''name'', PStr ''Di Poe''), (''street'', PStr ''5 Ash St''),
             (''city'', PStr ''Nome''), (''state'', PStr ''AK''), (''zip'', PStr ''200'')]"
  have ev: "main ?files = Inr [?b, ?c3, ?a, ?c2, ?c1]"
    by code_simp
  have recs: "concat (map contribution ?files) = [?a, ?b, ?c1, ?c2, ?c3]"
    by code_simp
  have keys: "map zip_key [?b, ?c3, ?a, ?c2, ?c1]
                = [''10001-0001'', ''200'', ''30301'', ''30301'', ''90210'']"
    by code_simp
  have ties: "filter (\<lambda>x. zip_key x = ''30301'') [?b, ?c3, ?a, ?c2, ?c1] = [?a, ?c2]"
    by code_simp
  from main_sorted_by_zip [OF ev] ev recs keys ties show ?thesis
    unfolding Let_def by (intro conjI) blast+
qed

section \<open>The identity keys of a record\<close>

text \<open>What each parser stores under \<open>name\<close> and \<open>organization\<close>.\<close>


lemma strip_Nil [simp]: "strip [] = []"
  by (simp add: strip_def lstrip_def rstrip_def)

lemma text_or_empty_Inr:
  "text_or_empty ent t = Inr s \<Longrightarrow> \<exists>n. find_child ent t = Some n \<and> (s = []) = blank (etext n)"
proof -
  assume a: "text_or_empty ent t = Inr s"
  then obtain n where n: "find_child ent t = Some n"
    by (auto simp: text_or_empty_def child_text_def split: option.splits)
  with a have "(s = []) = blank (etext n)"
    by (cases "etext n") (auto simp: text_or_empty_def child_text_def blank_def split: if_splits)
  with n show ?thesis by blast
qed

lemma has_key_xml_identity:
  "has_key (xml_identity name company) ''name'' = (name \<noteq> [])"
  "has_key (xml_identity name company) ''organization'' = (name = [] \<and> company \<noteq> [])"
  by (auto simp: xml_identity_def has_key_def)

lemma parse_ent_identity:
  assumes "parse_ent ent = Inr x"
  shows "\<exists>n c. find_child ent ''NAME'' = Some n \<and> find_child ent ''COMPANY'' = Some c \<and>
           has_key x ''name'' = (\<not> blank (etext n)) \<and>
           has_key x ''organization'' = (blank (etext n) \<and> \<not> blank (etext c))"
proof -
  from assms obtain name company
    where n: "text_or_empty ent ''NAME'' = Inr name"
      and c: "text_or_empty ent ''COMPANY'' = Inr company"
      and k: "has_key x ''name'' = has_key (xml_identity name company) ''name''"
             "has_key x ''organization'' = has_key (xml_identity name company) ''organization''"
    unfolding parse_ent_def
    by (auto simp: err_bind_eq_Inr Let_def split: if_splits)
  from text_or_empty_Inr [OF n] text_or_empty_Inr [OF c] k show ?thesis
    by (auto simp: has_key_xml_identity)
qed

lemma tsv_identity_one:
  "tsv_identity row = Inr a \<Longrightarrow> has_key a ''name'' \<noteq> has_key a ''organization''"
  by (auto simp: tsv_identity_def err_bind_eq_Inr has_key_def split: if_splits)

lemma tsv_county_keys:
  "tsv_county row a = Inr a' \<Longrightarrow> k \<noteq> ''county'' \<Longrightarrow> has_key a' k = has_key a k"
  by (auto simp: tsv_county_def err_bind_eq_Inr split: if_splits)

lemma parse_row_identity:
  assumes "parse_row row = Inr x"
  shows "has_key x ''name'' \<noteq> has_key x ''organization''"
proof -
  from assms obtain a street a' where a: "tsv_identity row = Inr a"
    and a': "tsv_county row (setitem a ''street'' (PStr street)) = Inr a'"
    and k: "has_key x ''name'' = has_key a' ''name''"
           "has_key x ''organization'' = has_key a' ''organization''"
    unfolding parse_row_def by (auto simp: err_bind_eq_Inr)
  from tsv_county_keys [OF a'] tsv_identity_one [OF a] k show ?thesis
    by simp
qed

lemma txt_city_state_zip_keys:
  "txt_city_state_zip csz a = Inr x \<Longrightarrow> k \<notin> {''city'', ''state'', ''zip''} \<Longrightarrow>
   has_key x k = has_key a k"
  by (auto simp: txt_city_state_zip_def err_bind_eq_Inr Let_def)

lemma parse_block_Inr:
  assumes "parse_block b = Inr x"
  shows "\<exists>csz a. txt_city_state_zip csz a = Inr x \<and> has_key a ''name'' \<and>
           \<not> has_key a ''organization''"
proof -
  from assms obtain name_line l1 l2
    where x: "(if contains l2 ''COUNTY''
               then err_bind (index (py_split b ''\<newline>'') 3) (\<lambda>l3.
                 txt_city_state_zip (py_split l3 '','')
                   (setitem (setitem (setitem [] ''name'' (PStr (txt_name name_line)))
                               ''street'' (PStr (strip l1)))
                      ''county'' (PStr (strip (py_replace l2 ''COUNTY'' [])))))
               else txt_city_state_zip (py_split l2 '','')
                      (setitem (setitem [] ''name'' (PStr (txt_name name_line)))
                         ''street'' (PStr (strip l1)))) = Inr x"
    unfolding parse_block_def by (auto simp: err_bind_eq_Inr Let_def simp del: setitem.simps)
  show ?thesis
  proof (cases "contains l2 ''COUNTY''")
    case True
    with x obtain l3 where "txt_city_state_zip (py_split l3 '','')
                   (setitem (setitem (setitem [] ''name'' (PStr (txt_name name_line)))
                               ''street'' (PStr (strip l1)))
                      ''county'' (PStr (strip (py_replace l2 ''COUNTY'' [])))) = Inr x"
      by (auto simp: err_bind_eq_Inr)
    then show ?thesis
      by (intro exI conjI) (assumption, simp_all add: has_key_def)
  next
    case False
    with x have "txt_city_state_zip (py_split l2 '','')
                      (setitem (setitem [] ''name'' (PStr (txt_name name_line)))
                         ''street'' (PStr (strip l1))) = Inr x"
      by simp
    then show ?thesis
      by (intro exI conjI) (assumption, simp_all add: has_key_def)
  qed
qed

lemma parse_block_identity:
  assumes "parse_block b = Inr x"
  shows "has_key x ''name'' \<and> \<not> has_key x ''organization''"
proof -
  from parse_block_Inr [OF assms] obtain csz a where c: "txt_city_state_zip csz a = Inr x"
    and a: "has_key a ''name''" "\<not> has_key a ''organization''"
    by blast
  from txt_city_state_zip_keys [OF c, of "''name''"]
    txt_city_state_zip_keys [OF c, of "''organization''"] a
  show ?thesis by simp
qed

text \<open>A record of the output is a record of one of the files.\<close>

lemma main_member:
  assumes "main files = Inr out" and "x \<in> set out"
  shows "\<exists>f\<in>set files. \<exists>rs. dispatch f = Inr rs \<and> x \<in> set rs"
proof -
  have "set out = set (concat (map contribution files))"
    by (simp only: main_Inr(2) [OF assms(1)] set_sort)
  with assms(2) obtain f where f: "f \<in> set files" and x: "x \<in> set (contribution f)"
    by auto
  show ?thesis
  proof (cases "dispatch f")
    case (Inl e)
    with x show ?thesis by (simp add: contribution_def)
  next
    case (Inr rs)
    with x have "x \<in> set rs" by (simp add: contribution_def)
    with f Inr show ?thesis by blast
  qed
qed

text \<open>
  No record of the output has both keys \<open>name\<close> and \<open>organization\<close>. A record has
  neither only when it comes from an entity of an XML file whose NAME and COMPANY texts
  are both blank; every other record, so every record of a TSV or plain-text file, has
  exactly one of the two.
\<close>

lemma identity_keys:
  assumes "main files = Inr out" and "x \<in> set out"
  shows "\<not> (has_key x ''name'' \<and> has_key x ''organization'')
         \<and> (\<not> has_key x ''name'' \<and> \<not> has_key x ''organization'' \<longrightarrow>
              (\<exists>f\<in>set files. \<exists>root ent n c.
                 endswith (path f) ''.xml'' \<and> et_parse f = Some root \<and>
                 ent \<in> set (findall_ENT root) \<and> parse_ent ent = Inr x \<and>
                 find_child ent ''NAME'' = Some n \<and> blank (etext n) \<and>
                 find_child ent ''COMPANY'' = Some c \<and> blank (etext c)))"
proof -
  from main_member [OF assms] obtain f rs
    where f: "f \<in> set files" and rs: "dispatch f = Inr rs" "x \<in> set rs"
    by blast
  from dispatch_member [OF rs] show ?thesis
  proof (elim disjE conjE exE)
    fix root ent
    assume e: "endswith (path f) ''.xml''" "et_parse f = Some root"
      "ent \<in> set (findall_ENT root)" "parse_ent ent = Inr x"
    from parse_ent_identity [OF e(4)] obtain n c
      where n: "find_child ent ''NAME'' = Some n" and c: "find_child ent ''COMPANY'' = Some c"
        and kn: "has_key x ''name'' = (\<not> blank (etext n))"
        and ko: "has_key x ''organization'' = (blank (etext n) \<and> \<not> blank (etext c))"
      by blast
    have "\<not> (has_key x ''name'' \<and> has_key x ''organization'')"
      by (simp add: kn ko)
    moreover have "\<exists>f\<in>set files. \<exists>root ent n c.
                 endswith (path f) ''.xml'' \<and> et_parse f = Some root \<and>
                 ent \<in> set (findall_ENT root) \<and> parse_ent ent = Inr x \<and>
                 find_child ent ''NAME'' = Some n \<and> blank (etext n) \<and>
                 find_child ent ''COMPANY'' = Some c \<and> blank (etext c)"
      if "\<not> has_key x ''name'' \<and> \<not> has_key x ''organization''"
    proof -
      from that kn ko have "blank (etext n)" "blank (etext c)"
        by simp_all
      with f e n c show ?thesis
        by blast
    qed
    ultimately show ?thesis by blast
  next
    fix rows row
    assume "parse_row row = Inr x"
    from parse_row_identity [OF this] show ?thesis by blast
  next
    fix s b
    assume "parse_block b = Inr x"
    from parse_block_identity [OF this] show ?thesis by blast
  qed
qed


section \<open>The city, state and zip of a text block\<close>

text \<open>A split at a single character: no piece holds it, and two in a row give an empty piece.\<close>


lemma startswith_char: "startswith (x # xs) [c] = (x = c)"
  by (simp add: startswith_def)

lemma split_scan_char_none: "c \<notin> set s \<Longrightarrow> split_scan [c] acc s = [rev acc @ s]"
  by (induction s arbitrary: acc) (auto simp: startswith_char)

lemma split_scan_char_first:
  "c \<notin> set a \<Longrightarrow> split_scan [c] acc (a @ c # rest) = (rev acc @ a) # split_scan [c] [] rest"
  by (induction a arbitrary: acc) (auto simp: startswith_char)

lemma py_split_one_space:
  "CHR '' '' \<notin> set a \<Longrightarrow> CHR '' '' \<notin> set b \<Longrightarrow> py_split (a @ '' '' @ b) '' '' = [a, b]"
  by (simp add: py_split_def split_scan_char_first split_scan_char_none)

lemma py_split_two_spaces:
  "CHR '' '' \<notin> set a \<Longrightarrow> \<exists>ps. py_split (a @ ''  '' @ b) '' '' = a # [] # ps"
  using split_scan_char_first [of "CHR '' ''" a "[]" "CHR '' '' # b"]
    split_scan_char_first [of "CHR '' ''" "[]" "[]" b]
  by (simp add: py_split_def)

lemma index_Inr: "index xs i = Inr v \<Longrightarrow> i < length xs \<and> v = xs ! i"
  by (auto simp: index_def split: if_splits)

lemma txt_city_state_zip_Inr:
  assumes "txt_city_state_zip csz a = Inr x"
  shows "2 \<le> length csz \<and> 2 \<le> length (py_split (strip (csz ! 1)) '' '') \<and>
         map_of x ''city'' = Some (PStr (strip (csz ! 0))) \<and>
         map_of x ''state'' = Some (PStr (strip (py_split (strip (csz ! 1)) '' '' ! 0))) \<and>
         map_of x ''zip'' = Some (PStr (strip (py_split (strip (csz ! 1)) '' '' ! 1)))"
  using assms unfolding txt_city_state_zip_def
  by (auto simp: err_bind_eq_Inr Let_def map_of_setitem dest!: index_Inr)

lemma parse_block_line:
  assumes "parse_block block = Inr x"
  shows "(if contains (py_split block ''\<newline>'' ! 2) ''COUNTY'' then 3 else 2)
           < length (py_split block ''\<newline>'') \<and>
         (\<exists>a. txt_city_state_zip
                 (py_split (if contains (py_split block ''\<newline>'' ! 2) ''COUNTY''
                            then py_split block ''\<newline>'' ! 3
                            else py_split block ''\<newline>'' ! 2) '','') a = Inr x)"
  using assms unfolding parse_block_def
  by (auto simp: err_bind_eq_Inr Let_def simp del: setitem.simps split: if_splits dest!: index_Inr)

text \<open>
  C5, as amended. For a block that parses, the city/state/zip line is the fourth line
  when the third holds \<open>COUNTY\<close> and the third otherwise. Split at the commas it has
  at least two parts, of which the first two are read. \<open>city\<close> is the first part
  trimmed; \<open>state\<close> and \<open>zip\<close> are the first and the second piece, each trimmed, of
  the trimmed second part split at every single space. When that part is a state, one
  space and a zip, neither with a space in it, the pieces are the state and the zip.
  When two spaces follow the state, the second piece is empty and \<open>zip\<close> is the empty
  string.
\<close>

theorem txt_city_state_zip_fields:
  assumes "parse_block block = Inr x"
  shows "let lines = py_split block ''\<newline>'';
             line = (if contains (lines ! 2) ''COUNTY'' then lines ! 3 else lines ! 2);
             parts = py_split line '','';
             pieces = py_split (strip (parts ! 1)) '' ''
         in (if contains (lines ! 2) ''COUNTY'' then 3 else 2) < length lines
            \<and> 2 \<le> length parts \<and> 2 \<le> length pieces
            \<and> map_of x ''city'' = Some (PStr (strip (parts ! 0)))
            \<and> map_of x ''state'' = Some (PStr (strip (pieces ! 0)))
            \<and> map_of x ''zip'' = Some (PStr (strip (pieces ! 1)))
            \<and> (\<forall>a b. strip (parts ! 1) = a @ '' '' @ b \<and> CHR '' '' \<notin> set a \<and>
                      CHR '' '' \<notin> set b \<longrightarrow> pieces = [a, b])
            \<and> (\<forall>a b. strip (parts ! 1) = a @ ''  '' @ b \<and> CHR '' '' \<notin> set a \<longrightarrow>
                      map_of x ''zip'' = Some (PStr []))"
proof -
  let ?lines = "py_split block ''\<newline>''"
  let ?line = "if contains (?lines ! 2) ''COUNTY'' then ?lines ! 3 else ?lines ! 2"
  let ?parts = "py_split ?line '',''"
  let ?pieces = "py_split (strip (?parts ! 1)) '' ''"
  from parse_block_line [OF assms] obtain a
    where l: "(if contains (?lines ! 2) ''COUNTY'' then 3 else 2) < length ?lines"
      and a: "txt_city_state_zip ?parts a = Inr x"
    by blast
  note f = txt_city_state_zip_Inr [OF a]
  have one: "\<forall>a b. strip (?parts ! 1) = a @ '' '' @ b \<and> CHR '' '' \<notin> set a \<and>
                      CHR '' '' \<notin> set b \<longrightarrow> ?pieces = [a, b]"
    using py_split_one_space by metis
  have two: "\<forall>a b. strip (?parts ! 1) = a @ ''  '' @ b \<and> CHR '' '' \<notin> set a \<longrightarrow>
                      map_of x ''zip'' = Some (PStr [])"
  proof (intro allI impI)
    fix a b
    assume h: "strip (?parts ! 1) = a @ ''  '' @ b \<and> CHR '' '' \<notin> set a"
    with py_split_two_spaces [of a b] obtain ps where "?pieces = a # [] # ps"
      by metis
    then have "?pieces ! 1 = []"
      by simp
    with f show "map_of x ''zip'' = Some (PStr [])"
      by simp
  qed
  from l f one two show ?thesis
    unfolding Let_def by (intro conjI) blast+
qed

text \<open>
  C5 as stated fails: with two spaces between state and zip, the second
  whitespace-delimited token of the trimmed second part is \<open>12182\<close>, and the \<open>zip\<close>
  the parser stores is the empty string.
\<close>

theorem second_token_counterexample:
  "parse_block ''Bo Day\<newline>3 Oak St\<newline>Troy, NY  12182''
     = Inr [(''name'', PStr ''Bo Day''), (''street'', PStr ''3 Oak St''),
            (''city'', PStr ''Troy''), (''state'', PStr ''NY''), (''zip'', PStr [])]
   \<and> py_split ''Troy, NY  12182'' '','' = [''Troy'', '' NY  12182'']
   \<and> py_split (strip '' NY  12182'') '' '' = [''NY'', [], ''12182'']
   \<and> whitespace_tokens (strip '' NY  12182'') = [''NY'', ''12182'']"
  by code_simp


text \<open>A block with a county line and one space between state and zip.\<close>

theorem txt_city_state_zip_fields_witness:
  "let block = ''Doe, Jane\<newline>2 Elm St\<newline>ORANGE COUNTY\<newline>Irvine, CA 92602'';
       x = [(''name'', PStr ''Doe Jane''), (''street'', PStr ''2 Elm St''),
            (''county'', PStr ''ORANGE''), (''city'', PStr ''Irvine''),
            (''state'', PStr ''CA''), (''zip'', PStr ''92602'')];
       lines = py_split block ''\<newline>'';
       parts = py_split (lines ! 3) '',''
   in parse_block block = Inr x
      \<and> lines = [''Doe, Jane'', ''2 Elm St'', ''ORANGE COUNTY'', ''Irvine, CA 92602'']
      \<and> contains (lines ! 2) ''COUNTY''
      \<and> parts = [''Irvine'', '' CA 92602'']
      \<and> strip (parts ! 1) = ''CA'' @ '' '' @ ''92602''
      \<and> py_split (strip (parts ! 1)) '' '' = [''CA'', ''92602'']
      \<and> map_of x ''city'' = Some (PStr (strip (parts ! 0)))
      \<and> map_of x ''state'' = Some (PStr (strip (py_split (strip (parts ! 1)) '' '' ! 0)))
      \<and> map_of x ''zip'' = Some (PStr (strip (py_split (strip (parts ! 1)) '' '' ! 1)))"
proof -
  let ?block = "''Doe, Jane\<newline>2 Elm St\<newline>ORANGE COUNTY\<newline>Irvine, CA 92602''"
  let ?x = "[(''name'', PStr ''Doe Jane''), (''street'', PStr ''2 Elm St''),
            (''county'', PStr ''ORANGE''), (''city'', PStr ''Irvine''),
            (''state'', PStr ''CA''), (''zip'', PStr ''92602'')]"
  let ?lines = "py_split ?block ''\<newline>''"
  let ?parts = "py_split (?lines ! 3) '',''"
  have ev: "parse_block ?block = Inr ?x"
    by code_simp
  have l: "?lines = [''Doe, Jane'', ''2 Elm St'', ''ORANGE COUNTY'', ''Irvine, CA 92602'']"
    by code_simp
  have c: "contains (?lines ! 2) ''COUNTY''"
    by code_simp
  have p: "?parts = [''Irvine'', '' CA 92602'']"
    by code_simp
  have s: "strip (?parts ! 1) = ''CA'' @ '' '' @ ''92602''"
    by code_simp
  have n: "CHR '' '' \<notin> set ''CA''" "CHR '' '' \<notin> set ''92602''"
    by simp_all
  note t = txt_city_state_zip_fields [OF ev, unfolded Let_def if_P [OF c]]
  from t s n have pieces: "py_split (strip (?parts ! 1)) '' '' = [''CA'', ''92602'']"
    by blast
  from t have f: "map_of ?x ''city'' = Some (PStr (strip (?parts ! 0)))"
    "map_of ?x ''state'' = Some (PStr (strip (py_split (strip (?parts ! 1)) '' '' ! 0)))"
    "map_of ?x ''zip'' = Some (PStr (strip (py_split (strip (?parts ! 1)) '' '' ! 1)))"
    by blast+
  from ev l c p s pieces f show ?thesis
    unfolding Let_def by (intro conjI)
qed

section \<open>Further facts on the country and on untrimmed values\<close>

text \<open>
  When an entity parses, its COUNTRY child is there, and the record has a \<open>country\<close>
  key exactly when the text of that child is not blank.
\<close>


lemma country_of_Inr:
  "country_of ent = Inr v \<Longrightarrow>
   truthy v = (\<exists>c s. find_child ent ''COUNTRY'' = Some c \<and> etext c = Some s \<and> strip s \<noteq> [])"
  by (auto simp: country_of_def child_text_def err_bind_eq_Inr split: option.splits if_splits)

lemma parse_ent_country_key:
  assumes "parse_ent ent = Inr r"
  shows "has_key r ''country'' =
           (\<exists>c s. find_child ent ''COUNTRY'' = Some c \<and> etext c = Some s \<and> strip s \<noteq> [])"
proof -
  from assms have "\<exists>v. country_of ent = Inr v \<and> has_key r ''country'' = truthy v"
    unfolding parse_ent_def
    by (auto simp: err_bind_eq_Inr Let_def xml_identity_def has_key_def map_of_setitem
        simp del: extra_streets.simps)
  with country_of_Inr show ?thesis
    by metis
qed

text \<open>
  The \<open>organization\<close> column of a TSV row is stored as it is, and the identity line of
  a text block that holds a comma is stored with its commas removed and nothing else.
\<close>

lemma parse_row_organization:
  assumes "parse_row row = Inr r" and "map_of row ''organization'' = Some v"
    and "v \<noteq> PStr ''N/A''"
  shows "map_of r ''organization'' = Some v"
proof -
  from assms(1) obtain a street a' where a: "tsv_identity row = Inr a"
    and a': "tsv_county row (setitem a ''street'' (PStr street)) = Inr a'"
    and k: "map_of r ''organization'' = map_of a' ''organization''"
    unfolding parse_row_def by (auto simp: err_bind_eq_Inr map_of_setitem)
  from a assms(2,3) have "a = [(''organization'', v)]"
    by (simp add: tsv_identity_def getitem_def)
  with a' have "map_of a' ''organization'' = Some v"
    by (auto simp: tsv_county_def err_bind_eq_Inr map_of_setitem split: if_splits)
  with k show ?thesis by simp
qed

lemma py_replace_char: "py_replace s [c] [] = filter (\<lambda>x. x \<noteq> c) s"
  by (induction s) (auto simp: startswith_char)

lemma txt_name_comma:
  "contains l '','' \<Longrightarrow> txt_name l = filter (\<lambda>x. x \<noteq> CHR '','') l"
  by (simp add: txt_name_def py_replace_char)

section \<open>Exactly one identity key on valid input\<close>


lemma identified_not_blank:
  "identified ent \<Longrightarrow> find_child ent ''NAME'' = Some n \<Longrightarrow> find_child ent ''COMPANY'' = Some c \<Longrightarrow>
   \<not> (blank (etext n) \<and> blank (etext c))"
  by (simp add: identified_def)

text \<open>
  C1. On valid input, that is when every entity of every XML file has a NAME or a
  COMPANY text that is not blank, every record of the list a run writes has exactly one
  of the keys \<open>name\<close> and \<open>organization\<close>: at least one of them and not both. The
  files may be of the three kinds in any mix.
\<close>

theorem identity_exactly_one:
  assumes "main files = Inr out"
    and valid: "\<forall>f\<in>set files. endswith (path f) ''.xml'' \<longrightarrow>
                  (\<forall>root. et_parse f = Some root \<longrightarrow>
                     (\<forall>ent\<in>set (findall_ENT root). identified ent))"
  shows "\<forall>x\<in>set out. (has_key x ''name'' \<or> has_key x ''organization'')
                      \<and> \<not> (has_key x ''name'' \<and> has_key x ''organization'')"
proof
  fix x assume x: "x \<in> set out"
  note k = identity_keys [OF assms(1) x]
  have "has_key x ''name'' \<or> has_key x ''organization''"
  proof (rule ccontr)
    assume "\<not> (has_key x ''name'' \<or> has_key x ''organization'')"
    with k obtain f root ent n c where f: "f \<in> set files" "endswith (path f) ''.xml''"
      "et_parse f = Some root" "ent \<in> set (findall_ENT root)"
      and b: "find_child ent ''NAME'' = Some n" "blank (etext n)"
        "find_child ent ''COMPANY'' = Some c" "blank (etext c)"
      by blast
    from valid f have "identified ent"
      by blast
    from identified_not_blank [OF this b(1,3)] b(2,4) show False
      by simp
  qed
  with k show "(has_key x ''name'' \<or> has_key x ''organization'')
               \<and> \<not> (has_key x ''name'' \<and> has_key x ''organization'')"
    by blast
qed

text \<open>One file of each kind; the XML file has a person and a company.\<close>

theorem identity_exactly_one_witness:
  "let e1 = Element ''ENT'' None
         [Element ''NAME'' (Some ''Ann Lee'') [], Element ''COMPANY'' None [],
          Element ''STREET'' (Some ''1 Main St'') [], Element ''CITY'' (Some ''Troy'') [],
          Element ''STATE'' (Some ''NY'') [], Element ''POSTAL_CODE'' (Some ''12180'') [],
          Element ''COUNTRY'' None []];
       e2 = Element ''ENT'' None
         [Element ''NAME'' (Some '' '') [], Element ''COMPANY'' (Some ''Apex'') [],
          Element ''STREET'' (Some ''9 Low Rd'') [], Element ''CITY'' (Some ''Troy'') [],
          Element ''STATE'' (Some ''NY'') [], Element ''POSTAL_CODE'' (Some ''12183'') [],
          Element ''COUNTRY'' None []];
       files =
        [\<lparr>path = ''a.xml'', et_parse = Some (Element ''ROOT'' None [e1, e2]),
           csv_rows = None, read_text = None\<rparr>,
         \<lparr>path = ''b.tsv'', et_parse = None,
           csv_rows = Some [[''first'', ''middle'', ''last'', ''organization'', ''address'',
                             ''city'', ''state'', ''county'', ''zip'', ''zip4''],
                            [[], [], [], ''Acme'', ''2 Elm St'', ''Troy'', ''NY'', [],
                             ''12181'', []]],
           read_text = None\<rparr>,
         \<lparr>path = ''c.txt'', et_parse = None, csv_rows = None,
           read_text = Some ''Bo Day\<newline>3 Oak St\<newline>Troy, NY 12182''\<rparr>];
       out = [[(''name'', PStr ''Ann Lee''), (''street'', PStr ''1 Main St''),
               (''city'', PStr ''Troy''), (''state'', PStr ''NY''), (''zip'', PStr ''12180'')],
              [(''organization'', PStr ''Acme''), (''street'', PStr ''2 Elm St''),
               (''city'', PStr ''Troy''), (''state'', PStr ''NY''), (''zip'', PStr ''12181'')],
              [(''name'', PStr ''Bo Day''), (''street'', PStr ''3 Oak St''),
               (''city'', PStr ''Troy''), (''state'', PStr ''NY''), (''zip'', PStr ''12182'')],
              [(''organization'', PStr ''Apex''), (''street'', PStr ''9 Low Rd''),
               (''city'', PStr ''Troy''), (''state'', PStr ''NY''), (''zip'', PStr ''12183'')]]
   in main files = Inr out
      \<and> findall_ENT (Element ''ROOT'' None [e1, e2]) = [e1, e2]
      \<and> identified e1 \<and> identified e2
      \<and> list_all (\<lambda>x. (has_key x ''name'' \<or> has_key x ''organization'')
                        \<and> \<not> (has_key x ''name'' \<and> has_key x ''organization'')) out"
proof -
  let ?e1 = "Element ''ENT'' None
         [Element ''NAME'' (Some ''Ann Lee'') [], Element ''COMPANY'' None [],
          Element ''STREET'' (Some ''1 Main St'') [], Element ''CITY'' (Some ''Troy'') [],
          Element ''STATE'' (Some ''NY'') [], Element ''POSTAL_CODE'' (Some ''12180'') [],
          Element ''COUNTRY'' None []]"
  let ?e2 = "Element ''ENT'' None
         [Element ''NAME'' (Some '' '') [], Element ''COMPANY'' (Some ''Apex'') [],
          Element ''STREET'' (Some ''9 Low Rd'') [], Element ''CITY'' (Some ''Troy'') [],
          Element ''STATE'' (Some ''NY'') [], Element ''POSTAL_CODE'' (Some ''12183'') [],
          Element ''COUNTRY'' None []]"
  let ?files =
       "[\<lparr>path = ''a.xml'', et_parse = Some (Element ''ROOT'' None [?e1, ?e2]),
           csv_rows = None, read_text = None\<rparr>,
         \<lparr>path = ''b.tsv'', et_parse = None,
           csv_rows = Some [[''first'', ''middle'', ''last'', ''organization'', ''address'',
                             ''city'', ''state'', ''county'', ''zip'', ''zip4''],
                            [[], [], [], ''Acme'', ''2 Elm St'', ''Troy'', ''NY'', [],
                             ''12181'', []]],
           read_text = None\<rparr>,
         \<lparr>path = ''c.txt'', et_parse = None, csv_rows = None,
           read_text = Some ''Bo Day\<newline>3 Oak St\<newline>Troy, NY 12182''\<rparr>]"
  let ?out = "[[(''name'', PStr ''Ann Lee''), (''street'', PStr ''1 Main St''),
               (''city'', PStr ''Troy''), (''state'', PStr ''NY''), (''zip'', PStr ''12180'')],
              [(''organization'', PStr ''Acme''), (''street'', PStr ''2 Elm St''),
               (''city'', PStr ''Troy''), (''state'', PStr ''NY''), (''zip'', PStr ''12181'')],
              [(''name'', PStr ''Bo Day''), (''street'', PStr ''3 Oak St''),
               (''city'', PStr ''Troy''), (''state'', PStr ''NY''), (''zip'', PStr ''12182'')],
              [(''organization'', PStr ''Apex''), (''street'', PStr ''9 Low Rd''),
               (''city'', PStr ''Troy''), (''state'', PStr ''NY''), (''zip'', PStr ''12183'')]]"
  have ev: "main ?files = Inr ?out"
    by code_simp
  have fa: "findall_ENT (Element ''ROOT'' None [?e1, ?e2]) = [?e1, ?e2]"
    by code_simp
  have id: "identified ?e1" "identified ?e2"
    by code_simp+
  have valid: "\<forall>f\<in>set ?files. endswith (path f) ''.xml'' \<longrightarrow>
                  (\<forall>root. et_parse f = Some root \<longrightarrow>
                     (\<forall>ent\<in>set (findall_ENT root). identified ent))"
    using fa id by (simp add: endswith_def startswith_def)
  from identity_exactly_one [OF ev valid]
  have "list_all (\<lambda>x. (has_key x ''name'' \<or> has_key x ''organization'')
                        \<and> \<not> (has_key x ''name'' \<and> has_key x ''organization'')) ?out"
    by (simp only: list_all_iff)
  with ev fa id show ?thesis
    unfolding Let_def by (intro conjI)
qed

text \<open>
  The hypothesis on the entities is needed: an entity with empty NAME and COMPANY
  elements is accepted, and its record has neither key.
\<close>

lemma unidentified_entity_record:
  "main [\<lparr>path = ''a.xml'',
          et_parse = Some (Element ''ROOT'' None [Element ''ENT'' None
            [Element ''NAME'' None [], Element ''COMPANY'' None [],
             Element ''STREET'' (Some ''1 Main St'') [], Element ''CITY'' (Some ''Troy'') [],
             Element ''STATE'' (Some ''NY'') [], Element ''POSTAL_CODE'' (Some ''12180'') [],
             Element ''COUNTRY'' None []]]),
          csv_rows = None, read_text = None\<rparr>]
     = Inr [[(''street'', PStr ''1 Main St''), (''city'', PStr ''Troy''),
             (''state'', PStr ''NY''), (''zip'', PStr ''12180'')]]"
  by code_simp

section \<open>The record of an entity with no identity\<close>

text \<open>A loop whose body raises on no entry returns.\<close>

lemma map_err_ok: "\<forall>x\<in>set xs. \<exists>y. f x = Inr y \<Longrightarrow> \<exists>ys. map_err f xs = Inr ys"
  by (induction xs) auto

text \<open>
  C9, as amended. Take an entity of a document whose NAME and COMPANY children are both
  there with blank texts, whose STREET, CITY, STATE and POSTAL_CODE children have a
  text, whose COUNTRY child is there, and whose STREET_2 and STREET_3 children have a
  text when they are there; let the other entities of the document parse. Then
  \<open>parse_xml\<close> raises no error and returns one record for each entity, in document
  order, and the record at the position of the entity is the one the loop body builds
  for it and has neither a \<open>name\<close> nor an \<open>organization\<close> key.
\<close>

theorem blank_identity_record_emitted:
  assumes doc: "et_parse f = Some root"
    and pos: "i < length (findall_ENT root)" "findall_ENT root ! i = ent"
    and name: "find_child ent ''NAME'' = Some n" "blank (etext n)"
    and company: "find_child ent ''COMPANY'' = Some c" "blank (etext c)"
    and required: "\<forall>t\<in>set [''STREET'', ''CITY'', ''STATE'', ''POSTAL_CODE''].
                     \<exists>x s. find_child ent t = Some x \<and> etext x = Some s"
    and streets: "\<forall>t\<in>set [''STREET_2'', ''STREET_3''].
                     \<forall>x. find_child ent t = Some x \<longrightarrow> etext x \<noteq> None"
    and country: "find_child ent ''COUNTRY'' \<noteq> None"
    and others: "\<forall>j<length (findall_ENT root). j \<noteq> i \<longrightarrow>
                   (\<exists>r. parse_ent (findall_ENT root ! j) = Inr r)"
  shows "\<exists>rs. parse_xml f = Inr rs \<and> length rs = length (findall_ENT root) \<and>
              parse_ent ent = Inr (rs ! i) \<and>
              \<not> has_key (rs ! i) ''name'' \<and> \<not> has_key (rs ! i) ''organization''"
proof -
  from parse_ent_blank_identity [OF name company required streets country] obtain r
    where r: "parse_ent ent = Inr r" "\<not> has_key r ''name''" "\<not> has_key r ''organization''"
    by blast
  have "\<forall>e\<in>set (findall_ENT root). \<exists>y. parse_ent e = Inr y"
  proof
    fix e assume "e \<in> set (findall_ENT root)"
    then obtain j where j: "j < length (findall_ENT root)" "findall_ENT root ! j = e"
      by (auto simp: in_set_conv_nth)
    show "\<exists>y. parse_ent e = Inr y"
    proof (cases "j = i")
      case True
      with j pos r show ?thesis by auto
    next
      case False
      with j others show ?thesis by auto
    qed
  qed
  from map_err_ok [OF this] obtain rs where rs: "map_err parse_ent (findall_ENT root) = Inr rs"
    by blast
  from map_err_Inr [OF rs] pos r(1) have l: "length rs = length (findall_ENT root)"
    and ri: "rs ! i = r"
    by auto
  from rs doc have "parse_xml f = Inr rs"
    by (simp add: parse_xml_def parse_xml_root_def)
  with l ri r show ?thesis
    by auto
qed

text \<open>
  C9 as stated fails: an entity with blank NAME and COMPANY makes \<open>parse_xml\<close> raise,
  and emit no record, when it has no COUNTRY child, and also when it has an empty
  STREET_2 element.
\<close>

theorem blank_identity_counterexample:
  "parse_xml \<lparr>path = ''a.xml'',
      et_parse = Some (Element ''ROOT'' None [Element ''ENT'' None
        [Element ''NAME'' None [], Element ''COMPANY'' (Some ''  '') [],
         Element ''STREET'' (Some ''1 Main St'') [], Element ''CITY'' (Some ''Troy'') [],
         Element ''STATE'' (Some ''NY'') [], Element ''POSTAL_CODE'' (Some ''12180'') []]]),
      csv_rows = None, read_text = None\<rparr> = Inl AttributeError
   \<and> parse_xml \<lparr>path = ''b.xml'',
      et_parse = Some (Element ''ROOT'' None [Element ''ENT'' None
        [Element ''NAME'' None [], Element ''COMPANY'' (Some ''  '') [],
         Element ''STREET'' (Some ''1 Main St'') [], Element ''STREET_2'' None [],
         Element ''CITY'' (Some ''Troy'') [], Element ''STATE'' (Some ''NY'') [],
         Element ''POSTAL_CODE'' (Some ''12180'') [], Element ''COUNTRY'' (Some ''US'') []]]),
      csv_rows = None, read_text = None\<rparr> = Inl AttributeError
   \<and> blank None \<and> blank (Some ''  '')"
  by code_simp


text \<open>A document of two entities; the second has no identity.\<close>

theorem blank_identity_record_emitted_witness:
  "let e1 = Element ''ENT'' None
         [Element ''NAME'' (Some ''Ann Lee'') [], Element ''COMPANY'' None [],
          Element ''STREET'' (Some ''1 Main St'') [], Element ''CITY'' (Some ''Troy'') [],
          Element ''STATE'' (Some ''NY'') [], Element ''POSTAL_CODE'' (Some ''12180'') [],
          Element ''COUNTRY'' None []];
       e2 = Element ''ENT'' None
         [Element ''NAME'' None [], Element ''COMPANY'' (Some ''  '') [],
          Element ''STREET'' (Some ''9 Low Rd'') [], Element ''CITY'' (Some ''Troy'') [],
          Element ''STATE'' (Some ''NY'') [], Element ''POSTAL_CODE'' (Some ''12183'') [],
          Element ''COUNTRY'' None []];
       root = Element ''ROOT'' None [e1, e2];
       f = \<lparr>path = ''a.xml'', et_parse = Some root, csv_rows = None, read_text = None\<rparr>;
       r1 = [(''name'', PStr ''Ann Lee''), (''street'', PStr ''1 Main St''),
             (''city'', PStr ''Troy''), (''state'', PStr ''NY''), (''zip'', PStr ''12180'')];
       r2 = [(''street'', PStr ''9 Low Rd''), (''city'', PStr ''Troy''),
             (''state'', PStr ''NY''), (''zip'', PStr ''12183'')]
   in findall_ENT root = [e1, e2]
      \<and> find_child e2 ''NAME'' = Some (Element ''NAME'' None []) \<and> blank None
      \<and> find_child e2 ''COMPANY'' = Some (Element ''COMPANY'' (Some ''  '') [])
      \<and> blank (Some ''  '')
      \<and> parse_xml f = Inr [r1, r2]
      \<and> (\<exists>rs. parse_xml f = Inr rs \<and> length rs = length (findall_ENT root) \<and>
              parse_ent e2 = Inr (rs ! 1) \<and>
              \<not> has_key (rs ! 1) ''name'' \<and> \<not> has_key (rs ! 1) ''organization'')"
proof -
  let ?n = "Element ''NAME'' None []"
  let ?c = "Element ''COMPANY'' (Some ''  '') []"
  let ?e1 = "Element ''ENT'' None
         [Element ''NAME'' (Some ''Ann Lee'') [], Element ''COMPANY'' None [],
          Element ''STREET'' (Some ''1 Main St'') [], Element ''CITY'' (Some ''Troy'') [],
          Element ''STATE'' (Some ''NY'') [], Element ''POSTAL_CODE'' (Some ''12180'') [],
          Element ''COUNTRY'' None []]"
  let ?e2 = "Element ''ENT'' None
         [?n, ?c,
          Element ''STREET'' (Some ''9 Low Rd'') [], Element ''CITY'' (Some ''Troy'') [],
          Element ''STATE'' (Some ''NY'') [], Element ''POSTAL_CODE'' (Some ''12183'') [],
          Element ''COUNTRY'' None []]"
  let ?root = "Element ''ROOT'' None [?e1, ?e2]"
  let ?f = "\<lparr>path = ''a.xml'', et_parse = Some ?root, csv_rows = None, read_text = None\<rparr>"
  let ?r1 = "[(''name'', PStr ''Ann Lee''), (''street'', PStr ''1 Main St''),
             (''city'', PStr ''Troy''), (''state'', PStr ''NY''), (''zip'', PStr ''12180'')]"
  let ?r2 = "[(''street'', PStr ''9 Low Rd''), (''city'', PStr ''Troy''),
             (''state'', PStr ''NY''), (''zip'', PStr ''12183'')]"
  have fa: "findall_ENT ?root = [?e1, ?e2]"
    by code_simp
  have doc: "et_parse ?f = Some ?root"
    by simp
  have pos: "1 < length (findall_ENT ?root)" "findall_ENT ?root ! 1 = ?e2"
    by (simp_all add: fa)
  have n: "find_child ?e2 ''NAME'' = Some ?n" "blank (etext ?n)"
    by (simp_all add: find_child_def blank_def)
  have c: "find_child ?e2 ''COMPANY'' = Some ?c" "blank (etext ?c)"
    by (simp add: find_child_def) code_simp
  have required: "\<forall>t\<in>set [''STREET'', ''CITY'', ''STATE'', ''POSTAL_CODE''].
                     \<exists>x s. find_child ?e2 t = Some x \<and> etext x = Some s"
    by (simp add: find_child_def)
  have streets: "\<forall>t\<in>set [''STREET_2'', ''STREET_3''].
                     \<forall>x. find_child ?e2 t = Some x \<longrightarrow> etext x \<noteq> None"
    by (simp add: find_child_def)
  have country: "find_child ?e2 ''COUNTRY'' \<noteq> None"
    by (simp add: find_child_def)
  have e1: "parse_ent ?e1 = Inr ?r1"
    by code_simp
  have others: "\<forall>j<length (findall_ENT ?root). j \<noteq> 1 \<longrightarrow>
                   (\<exists>r. parse_ent (findall_ENT ?root ! j) = Inr r)"
    using e1 by (auto simp: fa less_Suc_eq)
  have ev: "parse_xml ?f = Inr [?r1, ?r2]"
    by code_simp
  from blank_identity_record_emitted [OF doc pos n c required streets country others]
    fa n c ev
  show ?thesis
    unfolding Let_def by (simp only: element.sel)
qed

end
